theory Spec2Isabelle
  imports Main "HOL-Library.Word"
begin

unbundle bit_operations_syntax

section \<open>The SysClk LWLA driver front end (hardware/sysclk-lwla/api.c)\<close>

text \<open>
  A shallow embedding of the driver callbacks of \<^verbatim>\<open>api.c\<close>: \<^verbatim>\<open>config_set\<close>,
  \<^verbatim>\<open>configure_probes\<close>, \<^verbatim>\<open>dev_acquisition_start\<close>, \<^verbatim>\<open>dev_acquisition_stop\<close> and
  \<^verbatim>\<open>dev_close\<close>. The C functions mutate the device instance behind a pointer and
  return an \<^verbatim>\<open>int\<close> status; here each function takes the device instance and returns
  the status together with the updated instance and the calls it made into the protocol
  engine and the USB layer, in order.
\<close>

subsection \<open>Declarations of the headers\<close>

type_synonym u64 = "64 word"

text \<open>
  Modelled from the spec: the status codes of \<^verbatim>\<open>libsigrok.h\<close> (not part of the sources
  at hand), one constructor per code that an \<^verbatim>\<open>int\<close>-returning driver callback can
  yield. Only equality with \<^verbatim>\<open>SR_OK\<close> is ever tested.
\<close>

datatype sr_ret =
  SR_OK | SR_ERR | SR_ERR_MALLOC | SR_ERR_ARG | SR_ERR_BUG | SR_ERR_SAMPLERATE
| SR_ERR_NA | SR_ERR_DEV_CLOSED | SR_ERR_TIMEOUT

text \<open>
  Modelled from the spec: the device status of \<^verbatim>\<open>libsigrok.h\<close>, the states of the
  lifecycle \<^verbatim>\<open>INACTIVE -> INITIALIZING -> ACTIVE -> STOPPING\<close>.
\<close>

datatype sr_status =
  SR_ST_NOT_FOUND | SR_ST_INITIALIZING | SR_ST_INACTIVE | SR_ST_ACTIVE | SR_ST_STOPPING

text \<open>
  Modelled from the spec: the clock sources of \<^verbatim>\<open>protocol.h\<close>; \<^verbatim>\<open>CLOCK_SOURCE_NONE\<close>
  is the sentinel that requests the shutdown bitstream.
\<close>

datatype clock_source =
  CLOCK_SOURCE_NONE | CLOCK_SOURCE_INT | CLOCK_SOURCE_EXT_RISE | CLOCK_SOURCE_EXT_FALL

text \<open>
  Modelled from the spec: the configuration keys of \<^verbatim>\<open>libsigrok.h\<close>. The key is an
  \<^verbatim>\<open>int\<close> in C; every value that is none of the named keys is \<open>SR_CONF_OTHER\<close>.
\<close>

datatype sr_configkey =
  SR_CONF_LOGIC_ANALYZER | SR_CONF_SAMPLERATE | SR_CONF_EXTERNAL_CLOCK
| SR_CONF_TRIGGER_TYPE | SR_CONF_LIMIT_SAMPLES | SR_CONF_DEVICE_OPTIONS
| SR_CONF_OTHER int

text \<open>
  The \<^verbatim>\<open>GVariant\<close> values a client passes to \<^verbatim>\<open>config_set\<close>. The GLib getters return
  the stored value when the variant has the requested type and the zero value otherwise.
\<close>

datatype gvariant = GV_uint64 u64 | GV_boolean bool | GV_string string

fun g_variant_get_uint64 :: "gvariant \<Rightarrow> u64" where
  "g_variant_get_uint64 (GV_uint64 v) = v"
| "g_variant_get_uint64 _ = 0"

fun g_variant_get_boolean :: "gvariant \<Rightarrow> bool" where
  "g_variant_get_boolean (GV_boolean b) = b"
| "g_variant_get_boolean _ = False"

text \<open>
  An acquisition session (\<^verbatim>\<open>struct acquisition_state\<close>) is opaque to \<^verbatim>\<open>api.c\<close>, which
  only holds a pointer to it: the pointer is an address, \<^verbatim>\<open>NULL\<close> is \<open>None\<close>. The same
  holds for the libusb device handle.
\<close>

type_synonym acquisition_state = nat
type_synonym libusb_device_handle = nat

text \<open>
  Modelled from the spec: the Device Context (\<^verbatim>\<open>struct dev_context\<close> of
  \<^verbatim>\<open>protocol.h\<close>), with the fields that \<^verbatim>\<open>api.c\<close> reads or writes.
\<close>

record dev_context =
  samplerate :: u64
  limit_samples :: u64
  selected_clock_source :: clock_source
  channel_mask :: u64
  trigger_mask :: u64
  trigger_edge_mask :: u64
  trigger_values :: u64
  acquisition :: "acquisition_state option"
  stopping_in_progress :: bool
  transfer_error :: bool

text \<open>
  Modelled from the spec: a probe (\<^verbatim>\<open>struct sr_probe\<close> of \<^verbatim>\<open>libsigrok.h\<close>), with the
  two fields the driver reads. The trigger is a
  pointer to a NUL-terminated string and may be \<^verbatim>\<open>NULL\<close>.
\<close>

record sr_probe =
  enabled :: bool
  trigger :: "string option"

text \<open>
  Modelled from the spec: the USB connection (\<^verbatim>\<open>struct sr_usb_dev_inst\<close>) behind
  \<^verbatim>\<open>sdi->conn\<close>, of which the driver reads and clears the device handle.
\<close>

record sr_usb_dev_inst =
  devhdl :: "libusb_device_handle option"

text \<open>
  Modelled from the spec: the device instance (\<^verbatim>\<open>struct sr_dev_inst\<close> of
  \<^verbatim>\<open>libsigrok.h\<close>), with the fields the driver uses. \<open>priv\<close> points to the Device Context
  and is tested against \<^verbatim>\<open>NULL\<close> by \<^verbatim>\<open>config_set\<close>; \<open>probes\<close> is the \<^verbatim>\<open>GSList\<close> of
  probes, whose nodes may carry a \<^verbatim>\<open>NULL\<close> data pointer.
\<close>

record sr_dev_inst =
  status :: sr_status
  priv :: "dev_context option"
  conn :: sr_usb_dev_inst
  probes :: "sr_probe option list"

text \<open>
  Modelled from the spec: the driver context (\<^verbatim>\<open>struct drv_context\<close> of
  \<^verbatim>\<open>libsigrok-internal.h\<close>) behind \<^verbatim>\<open>di->priv\<close>, which is \<^verbatim>\<open>NULL\<close> until the driver is
  initialised; \<open>sr_ctx\<close> is its handle of the library context.
\<close>

record drv_context =
  sr_ctx :: nat

text \<open>
  The functions of the protocol engine (\<^verbatim>\<open>protocol.c\<close>, not part of the sources at
  hand) that \<^verbatim>\<open>api.c\<close> calls. They are parameters of the model: the allocator yields a
  session or \<^verbatim>\<open>NULL\<close>. The three that take the device instance receive it as
  \<^verbatim>\<open>const struct sr_dev_inst *\<close>: they return a status and may rewrite the Device
  Context behind \<open>priv\<close>, nothing else of the instance.
\<close>

record protocol_engine =
  lwla_alloc_acquisition_state :: "acquisition_state option"
  lwla_setup_acquisition :: "sr_dev_inst \<Rightarrow> sr_ret \<times> dev_context"
  lwla_start_acquisition :: "sr_dev_inst \<Rightarrow> sr_ret \<times> dev_context"
  lwla_set_clock_source :: "sr_dev_inst \<Rightarrow> sr_ret \<times> dev_context"

text \<open>The calls a driver callback makes into its collaborators, recorded in order.\<close>

datatype ext_call =
  Call_alloc_acquisition_state
| Call_free_acquisition_state acquisition_state
| Call_setup_acquisition
| Call_start_acquisition
| Call_set_clock_source
| Call_usb_source_add nat nat
| Call_session_send_df_header
| Call_libusb_release_interface libusb_device_handle
| Call_libusb_close libusb_device_handle

subsection \<open>Sample rates\<close>

text \<open>
  Modelled from the spec: the frequency macros of \<^verbatim>\<open>libsigrok.h\<close>, which scale a
  number to Hz in 64-bit unsigned arithmetic. The table is the one of \<^verbatim>\<open>api.c\<close>.
\<close>

definition SR_HZ :: "u64 \<Rightarrow> u64" where
  "SR_HZ n = n"

definition SR_KHZ :: "u64 \<Rightarrow> u64" where
  "SR_KHZ n = n * 1000"

definition SR_MHZ :: "u64 \<Rightarrow> u64" where
  "SR_MHZ n = n * 1000000"

definition samplerates :: "u64 list" where
  "samplerates =
    [SR_MHZ 125, SR_MHZ 100,
     SR_MHZ 50,  SR_MHZ 20,  SR_MHZ 10,
     SR_MHZ 5,   SR_MHZ 2,   SR_MHZ 1,
     SR_KHZ 500, SR_KHZ 200, SR_KHZ 100,
     SR_KHZ 50,  SR_KHZ 20,  SR_KHZ 10,
     SR_KHZ 5,   SR_KHZ 2,   SR_KHZ 1,
     SR_HZ 500,  SR_HZ 200,  SR_HZ 100]"

subsection \<open>config_set\<close>

definition config_set ::
  "protocol_engine \<Rightarrow> sr_configkey \<Rightarrow> gvariant \<Rightarrow> sr_dev_inst
    \<Rightarrow> sr_ret \<times> sr_dev_inst \<times> ext_call list" where
  "config_set eng key data sdi =
    (case priv sdi of
       None \<Rightarrow> (SR_ERR_DEV_CLOSED, sdi, [])
     | Some devc \<Rightarrow>
        (case key of
           SR_CONF_SAMPLERATE \<Rightarrow>
             (let rate = g_variant_get_uint64 data in
              if rate > samplerates ! 0 \<or> rate < samplerates ! (length samplerates - 1)
              then (SR_ERR_SAMPLERATE, sdi, [])
              else (SR_OK, sdi\<lparr>priv := Some (devc\<lparr>samplerate := rate\<rparr>)\<rparr>, []))
         | SR_CONF_LIMIT_SAMPLES \<Rightarrow>
             (SR_OK, sdi\<lparr>priv := Some (devc\<lparr>limit_samples := g_variant_get_uint64 data\<rparr>)\<rparr>, [])
         | SR_CONF_EXTERNAL_CLOCK \<Rightarrow>
             (let devc1 = devc\<lparr>selected_clock_source :=
                            (if g_variant_get_boolean data then CLOCK_SOURCE_EXT_RISE
                             else CLOCK_SOURCE_INT)\<rparr>;
                  sdi1 = sdi\<lparr>priv := Some devc1\<rparr>
              in if status sdi = SR_ST_ACTIVE
                 then (let (ret, devc2) = lwla_set_clock_source eng sdi1
                       in (ret, sdi1\<lparr>priv := Some devc2\<rparr>, [Call_set_clock_source]))
                 else (SR_OK, sdi1, []))
         | _ \<Rightarrow> (SR_ERR_NA, sdi, [])))"

subsection \<open>configure_probes\<close>

text \<open>
  \<open>cstr_at s i\<close> is the byte \<^verbatim>\<open>s[i]\<close> of the NUL-terminated buffer that holds the
  characters of \<open>s\<close>: the terminator sits right after the last character.
\<close>

definition cstr_at :: "string \<Rightarrow> nat \<Rightarrow> char" where
  "cstr_at s i = (if i < length s then s ! i else CHR 0x00)"

text \<open>
  The body of the loop of \<^verbatim>\<open>configure_probes\<close> for one list node, after the check of
  the channel limit: \<open>SR_OK\<close> stands for reaching the end of the body or a
  \<^verbatim>\<open>continue\<close>, \<open>SR_ERR\<close> for a \<^verbatim>\<open>return SR_ERR\<close>. The Device Context is written in
  place, so the bits set before a \<^verbatim>\<open>return\<close> stay set.
\<close>

definition configure_probe :: "u64 \<Rightarrow> sr_probe option \<Rightarrow> dev_context \<Rightarrow> sr_ret \<times> dev_context" where
  "configure_probe probe_bit node devc =
    (case node of
       None \<Rightarrow> (SR_OK, devc)
     | Some probe \<Rightarrow>
        if \<not> enabled probe then (SR_OK, devc)
        else
          (let devc1 = devc\<lparr>channel_mask := channel_mask devc OR probe_bit\<rparr> in
           case trigger probe of
             None \<Rightarrow> (SR_OK, devc1)
           | Some trig \<Rightarrow>
              if cstr_at trig 0 = CHR 0x00 then (SR_OK, devc1)
              else if cstr_at trig 1 \<noteq> CHR 0x00 then (SR_ERR, devc1)
              else
                (let devc2 = devc1\<lparr>trigger_mask := trigger_mask devc1 OR probe_bit\<rparr>;
                     c = cstr_at trig 0
                 in if c = CHR ''1'' then
                      (SR_OK, devc2\<lparr>trigger_values := trigger_values devc2 OR probe_bit\<rparr>)
                    else if c = CHR ''0'' then (SR_OK, devc2)
                    else if c = CHR ''r'' then
                      (SR_OK, devc2\<lparr>trigger_values := trigger_values devc2 OR probe_bit,
                                   trigger_edge_mask := trigger_edge_mask devc2 OR probe_bit\<rparr>)
                    else if c = CHR ''f'' then
                      (SR_OK, devc2\<lparr>trigger_edge_mask := trigger_edge_mask devc2 OR probe_bit\<rparr>)
                    else (SR_ERR, devc2))))"

text \<open>
  The loop over the probe list. \<open>num_probes\<close> is the macro \<^verbatim>\<open>NUM_PROBES\<close> of
  \<^verbatim>\<open>protocol.h\<close>, taken as a parameter; the limit \<^verbatim>\<open>(uint64_t)1 << NUM_PROBES\<close> is
  defined in C for \<open>num_probes < 64\<close> only. \<^verbatim>\<open>probe_bit <<= 1\<close> is a 64-bit shift.
\<close>

fun configure_probes_loop ::
  "nat \<Rightarrow> sr_probe option list \<Rightarrow> u64 \<Rightarrow> dev_context \<Rightarrow> sr_ret \<times> dev_context" where
  "configure_probes_loop num_probes [] probe_bit devc = (SR_OK, devc)"
| "configure_probes_loop num_probes (node # next) probe_bit devc =
    (if probe_bit \<ge> push_bit num_probes 1 then (SR_ERR, devc)
     else
       (let (ret, devc1) = configure_probe probe_bit node devc
        in if ret \<noteq> SR_OK then (ret, devc1)
           else configure_probes_loop num_probes next (push_bit 1 probe_bit) devc1))"

text \<open>
  \<^verbatim>\<open>configure_probes\<close> dereferences \<^verbatim>\<open>sdi->priv\<close> without a test: with a \<^verbatim>\<open>NULL\<close>
  Device Context the call does not return (\<open>None\<close>).
\<close>

definition configure_probes :: "nat \<Rightarrow> sr_dev_inst \<Rightarrow> (sr_ret \<times> sr_dev_inst) option" where
  "configure_probes num_probes sdi =
    (case priv sdi of
       None \<Rightarrow> None
     | Some devc \<Rightarrow>
        (let devc0 = devc\<lparr>channel_mask := 0, trigger_mask := 0,
                          trigger_edge_mask := 0, trigger_values := 0\<rparr>;
             (ret, devc1) = configure_probes_loop num_probes (probes sdi) 1 devc0
         in Some (ret, sdi\<lparr>priv := Some devc1\<rparr>)))"

subsection \<open>dev_acquisition_start and dev_acquisition_stop\<close>

text \<open>
  \<open>di_priv\<close> is the driver context pointer \<^verbatim>\<open>di->priv\<close>, dereferenced only when the
  I/O source is registered. The result \<open>None\<close> is a \<^verbatim>\<open>NULL\<close> dereference. The
  assignment \<^verbatim>\<open>devc->acquisition = acq\<close> writes through the pointer read at the start
  of the function, that is, into the Device Context that \<^verbatim>\<open>configure_probes\<close> has just
  updated.
\<close>

definition dev_acquisition_start ::
  "nat \<Rightarrow> protocol_engine \<Rightarrow> drv_context option \<Rightarrow> sr_dev_inst
    \<Rightarrow> (sr_ret \<times> sr_dev_inst \<times> ext_call list) option" where
  "dev_acquisition_start num_probes eng di_priv sdi =
    (if status sdi \<noteq> SR_ST_ACTIVE then Some (SR_ERR_DEV_CLOSED, sdi, [])
     else
      (case priv sdi of
         None \<Rightarrow> None
       | Some devc \<Rightarrow>
          if acquisition devc \<noteq> None then Some (SR_ERR, sdi, [])
          else
           (case lwla_alloc_acquisition_state eng of
              None \<Rightarrow> Some (SR_ERR_MALLOC, sdi, [Call_alloc_acquisition_state])
            | Some acq \<Rightarrow>
               (let devc1 = devc\<lparr>stopping_in_progress := False, transfer_error := False\<rparr>
                in case configure_probes num_probes (sdi\<lparr>priv := Some devc1\<rparr>) of
                     None \<Rightarrow> None
                   | Some (ret, sdi1) \<Rightarrow>
                      if ret \<noteq> SR_OK then
                        Some (ret, sdi1,
                              [Call_alloc_acquisition_state, Call_free_acquisition_state acq])
                      else
                       (let sdi2 = sdi1\<lparr>priv := map_option (\<lambda>d. d\<lparr>acquisition := Some acq\<rparr>) (priv sdi1)\<rparr>;
                            (ret, devc3) = lwla_setup_acquisition eng sdi2
                        in if ret \<noteq> SR_OK then
                             Some (ret, sdi2\<lparr>priv := Some (devc3\<lparr>acquisition := None\<rparr>)\<rparr>,
                                   [Call_alloc_acquisition_state, Call_setup_acquisition,
                                    Call_free_acquisition_state acq])
                           else
                            (let sdi3 = sdi2\<lparr>priv := Some devc3\<rparr>;
                                 (ret, devc4) = lwla_start_acquisition eng sdi3
                             in if ret \<noteq> SR_OK then
                                  Some (ret, sdi3\<lparr>priv := Some (devc4\<lparr>acquisition := None\<rparr>)\<rparr>,
                                        [Call_alloc_acquisition_state, Call_setup_acquisition,
                                         Call_start_acquisition, Call_free_acquisition_state acq])
                                else
                                 (case di_priv of
                                    None \<Rightarrow> None
                                  | Some drvc \<Rightarrow>
                                     Some (SR_OK, sdi3\<lparr>priv := Some devc4\<rparr>,
                                           [Call_alloc_acquisition_state, Call_setup_acquisition,
                                            Call_start_acquisition,
                                            Call_usb_source_add (sr_ctx drvc) 100,
                                            Call_session_send_df_header]))))))))"

definition dev_acquisition_stop :: "sr_dev_inst \<Rightarrow> sr_ret \<times> sr_dev_inst \<times> ext_call list" where
  "dev_acquisition_stop sdi =
    (if status sdi \<noteq> SR_ST_ACTIVE then (SR_ERR_DEV_CLOSED, sdi, [])
     else (SR_OK, sdi\<lparr>status := SR_ST_STOPPING\<rparr>, []))"

subsection \<open>dev_close\<close>

definition dev_close ::
  "protocol_engine \<Rightarrow> drv_context option \<Rightarrow> sr_dev_inst
    \<Rightarrow> (sr_ret \<times> sr_dev_inst \<times> ext_call list) option" where
  "dev_close eng di_priv sdi =
    (case di_priv of
       None \<Rightarrow> Some (SR_ERR, sdi, [])
     | Some drvc \<Rightarrow>
        (case devhdl (conn sdi) of
           None \<Rightarrow> Some (SR_OK, sdi, [])
         | Some hdl \<Rightarrow>
            (case priv sdi of
               None \<Rightarrow> None
             | Some devc \<Rightarrow>
                (let devc1 = devc\<lparr>selected_clock_source := CLOCK_SOURCE_NONE\<rparr>;
                     (ret, devc2) = lwla_set_clock_source eng (sdi\<lparr>priv := Some devc1\<rparr>)
                 in Some (SR_OK,
                          sdi\<lparr>priv := Some devc2,
                              conn := (conn sdi)\<lparr>devhdl := None\<rparr>,
                              status := SR_ST_INACTIVE\<rparr>,
                          [Call_set_clock_source, Call_libusb_release_interface hdl,
                           Call_libusb_close hdl])))))"

subsection \<open>Example devices\<close>

text \<open>Concrete values on which the theorems below are instantiated.\<close>

definition devc_idle :: dev_context where
  "devc_idle =
    \<lparr>samplerate = 0, limit_samples = 0, selected_clock_source = CLOCK_SOURCE_INT,
     channel_mask = 0, trigger_mask = 0, trigger_edge_mask = 0, trigger_values = 0,
     acquisition = None, stopping_in_progress = False, transfer_error = False\<rparr>"

definition probes_scenario :: "sr_probe option list" where
  "probes_scenario =
    [Some \<lparr>enabled = True, trigger = Some ''r''\<rparr>,
     Some \<lparr>enabled = True, trigger = Some ''''\<rparr>,
     Some \<lparr>enabled = False, trigger = None\<rparr>]"

definition sdi_idle :: sr_dev_inst where
  "sdi_idle =
    \<lparr>status = SR_ST_ACTIVE, priv = Some devc_idle, conn = \<lparr>devhdl = Some 1\<rparr>,
     probes = probes_scenario\<rparr>"

definition sdi_running :: sr_dev_inst where
  "sdi_running = sdi_idle\<lparr>priv := Some (devc_idle\<lparr>acquisition := Some 5\<rparr>)\<rparr>"

text \<open>
  An engine whose setup and start steps return the given codes and leave the Device
  Context as it is, and whose allocator returns the session at address 7.
\<close>

definition keep_context :: "sr_ret \<Rightarrow> sr_dev_inst \<Rightarrow> sr_ret \<times> dev_context" where
  "keep_context r sdi = (r, case priv sdi of Some devc \<Rightarrow> devc | None \<Rightarrow> devc_idle)"

definition engine_of :: "sr_ret \<Rightarrow> sr_ret \<Rightarrow> protocol_engine" where
  "engine_of r_setup r_start =
    \<lparr>lwla_alloc_acquisition_state = Some 7,
     lwla_setup_acquisition = keep_context r_setup,
     lwla_start_acquisition = keep_context r_start,
     lwla_set_clock_source = keep_context SR_OK\<rparr>"

definition drvc_example :: drv_context where
  "drvc_example = \<lparr>sr_ctx = 0\<rparr>"

text \<open>
  A Device Context with masks left over from an earlier compilation; a device that
  holds it and whose probe list is the scenario list followed by one more, disabled,
  probe; the Device Context that compiling the scenario list leaves; a disabled probe
  that carries a two-character trigger; an enabled probe that carries one.
\<close>

definition devc_stale :: dev_context where
  "devc_stale =
    devc_idle\<lparr>channel_mask := 255, trigger_mask := 4, trigger_edge_mask := 4, trigger_values := 4\<rparr>"

definition sdi_over_limit :: sr_dev_inst where
  "sdi_over_limit =
    sdi_idle\<lparr>priv := Some devc_stale,
             probes := probes_scenario @ [Some \<lparr>enabled = False, trigger = None\<rparr>]\<rparr>"

definition devc_scenario :: dev_context where
  "devc_scenario =
    devc_idle\<lparr>channel_mask := 3, trigger_mask := 1, trigger_edge_mask := 1, trigger_values := 1\<rparr>"

definition sdi_disabled_trigger :: sr_dev_inst where
  "sdi_disabled_trigger = sdi_idle\<lparr>probes := [Some \<lparr>enabled = False, trigger = Some ''xx''\<rparr>]\<rparr>"

definition sdi_two_stage :: sr_dev_inst where
  "sdi_two_stage = sdi_idle\<lparr>probes := [Some \<lparr>enabled = True, trigger = Some ''rf''\<rparr>]\<rparr>"

section \<open>Sample rate validation\<close>

lemma samplerates_min: "Min (set samplerates) = samplerates ! (length samplerates - 1)"
  by (simp add: samplerates_def SR_HZ_def SR_KHZ_def SR_MHZ_def)

lemma samplerates_max: "Max (set samplerates) = samplerates ! 0"
  by (simp add: samplerates_def SR_HZ_def SR_KHZ_def SR_MHZ_def)

lemma samplerates_descending: "sorted (rev samplerates) \<and> distinct samplerates"
  by (simp add: samplerates_def SR_HZ_def SR_KHZ_def SR_MHZ_def)

text \<open>
  C2: on a device with a Device Context, \<^verbatim>\<open>config_set\<close> with key \<open>SR_CONF_SAMPLERATE\<close>
  and rate \<open>r\<close> returns \<open>SR_OK\<close> and stores \<open>r\<close> exactly when \<open>r\<close> lies between the
  least and the greatest entry of \<open>samplerates\<close>, whether or not it is an entry;
  otherwise it returns \<open>SR_ERR_SAMPLERATE\<close> and the device instance, with the stored
  sample rate, is unchanged.
\<close>

theorem config_set_samplerate_range:
  assumes "priv sdi = Some devc"
  shows "config_set eng SR_CONF_SAMPLERATE (GV_uint64 r) sdi =
          (if Min (set samplerates) \<le> r \<and> r \<le> Max (set samplerates)
           then (SR_OK, sdi\<lparr>priv := Some (devc\<lparr>samplerate := r\<rparr>)\<rparr>, [])
           else (SR_ERR_SAMPLERATE, sdi, []))"
  using assms
  by (simp only: samplerates_min samplerates_max)
     (auto simp: config_set_def Let_def not_le not_less)

text \<open>
  3 MHz is no entry of the list and is accepted; the two extremes are accepted; one
  above the maximum and one below the minimum are rejected.
\<close>

theorem config_set_samplerate_range_witness:
  "priv sdi_idle = Some devc_idle
   \<and> 3000000 \<notin> set samplerates
   \<and> config_set (engine_of SR_OK SR_OK) SR_CONF_SAMPLERATE (GV_uint64 3000000) sdi_idle
       = (SR_OK, sdi_idle\<lparr>priv := Some (devc_idle\<lparr>samplerate := 3000000\<rparr>)\<rparr>, [])
   \<and> config_set (engine_of SR_OK SR_OK) SR_CONF_SAMPLERATE (GV_uint64 125000000) sdi_idle
       = (SR_OK, sdi_idle\<lparr>priv := Some (devc_idle\<lparr>samplerate := 125000000\<rparr>)\<rparr>, [])
   \<and> config_set (engine_of SR_OK SR_OK) SR_CONF_SAMPLERATE (GV_uint64 100) sdi_idle
       = (SR_OK, sdi_idle\<lparr>priv := Some (devc_idle\<lparr>samplerate := 100\<rparr>)\<rparr>, [])
   \<and> config_set (engine_of SR_OK SR_OK) SR_CONF_SAMPLERATE (GV_uint64 125000001) sdi_idle
       = (SR_ERR_SAMPLERATE, sdi_idle, [])
   \<and> config_set (engine_of SR_OK SR_OK) SR_CONF_SAMPLERATE (GV_uint64 99) sdi_idle
       = (SR_ERR_SAMPLERATE, sdi_idle, [])"
proof -
  have p: "priv sdi_idle = Some devc_idle" by (simp add: sdi_idle_def)
  have m: "Min (set samplerates) = 100" "Max (set samplerates) = 125000000"
    by (simp_all add: samplerates_def SR_HZ_def SR_KHZ_def SR_MHZ_def)
  have n: "3000000 \<notin> set samplerates"
    by (simp add: samplerates_def SR_HZ_def SR_KHZ_def SR_MHZ_def)
  show ?thesis
    using p n
      config_set_samplerate_range [OF p, of "engine_of SR_OK SR_OK" 3000000]
      config_set_samplerate_range [OF p, of "engine_of SR_OK SR_OK" 125000000]
      config_set_samplerate_range [OF p, of "engine_of SR_OK SR_OK" 100]
      config_set_samplerate_range [OF p, of "engine_of SR_OK SR_OK" 125000001]
      config_set_samplerate_range [OF p, of "engine_of SR_OK SR_OK" 99]
    by (simp add: m)
qed

section \<open>Compiling the probe list into the masks\<close>

subsection \<open>The probe bit and the channel limit\<close>

text \<open>
  At list position \<open>i\<close> the probe bit is \<open>2 ^ i\<close>; below 64 the unsigned comparison
  with the limit \<open>2 ^ num_probes\<close> is the comparison of the exponents.
\<close>

lemma unat_two_power: "i < 64 \<Longrightarrow> unat (2 ^ i :: u64) = 2 ^ i"
proof -
  assume a: "i < 64"
  have "unat (push_bit i (1::u64)) = take_bit 64 (push_bit i (1::nat))"
    by (simp only: unsigned_push_bit_eq) simp
  also have "\<dots> = 2 ^ i" using a by (simp add: take_bit_nat_eq_self_iff)
  finally show ?thesis by simp
qed

lemma limit_reached_iff:
  "i < 64 \<Longrightarrow> n < 64 \<Longrightarrow> ((2 ^ n :: u64) \<le> 2 ^ i) = (n \<le> i)"
  by (simp add: word_le_nat_alt unat_two_power)

lemma shift_probe_bit: "push_bit 1 (2 ^ i :: u64) = 2 ^ Suc i"
  by (simp add: push_bit_eq_mult)

lemma configure_probe_ret:
  "fst (configure_probe b node d) = SR_OK \<or> fst (configure_probe b node d) = SR_ERR"
  by (simp add: configure_probe_def Let_def split: option.split)

lemma configure_probes_loop_ret:
  "fst (configure_probes_loop np nodes b d) = SR_OK \<or> fst (configure_probes_loop np nodes b d) = SR_ERR"
proof (induction nodes arbitrary: b d)
  case Nil
  then show ?case by simp
next
  case (Cons node nodes)
  obtain r d1 where body: "configure_probe b node d = (r, d1)" by (cases "configure_probe b node d")
  with configure_probe_ret [of b node d] have "r = SR_OK \<or> r = SR_ERR" by simp
  with body Cons.IH [of "push_bit 1 b" d1] show ?case by auto
qed

lemma configure_probes_loop_over_limit:
  assumes "np < 64" and "i \<le> np" and "np - i < length nodes"
  shows "configure_probes_loop np nodes (2 ^ i) d =
           (SR_ERR, snd (configure_probes_loop np (take (np - i) nodes) (2 ^ i) d))"
  using assms
proof (induction nodes arbitrary: i d)
  case Nil
  then show ?case by simp
next
  case (Cons node nodes)
  show ?case
  proof (cases "i = np")
    case True
    with Cons.prems show ?thesis by (simp add: limit_reached_iff)
  next
    case False
    with Cons.prems have lt: "i < np" "i < 64" by simp_all
    then have nolimit: "\<not> push_bit np (1::u64) \<le> 2 ^ i"
      using Cons.prems(1) by (simp add: limit_reached_iff)
    obtain r d1 where body: "configure_probe (2 ^ i) node d = (r, d1)"
      by (cases "configure_probe (2 ^ i) node d")
    with configure_probe_ret [of "2 ^ i" node d] have r: "r = SR_OK \<or> r = SR_ERR" by simp
    from lt have tk: "take (np - i) (node # nodes) = node # take (np - Suc i) nodes"
      by (simp add: Suc_diff_Suc [symmetric] del: Suc_diff_Suc)
    show ?thesis
    proof (cases "r = SR_OK")
      case True
      have "configure_probes_loop np nodes (2 ^ Suc i) d1 =
              (SR_ERR, snd (configure_probes_loop np (take (np - Suc i) nodes) (2 ^ Suc i) d1))"
        using Cons.prems lt by (intro Cons.IH) simp_all
      with True body nolimit tk show ?thesis
        by (simp only: configure_probes_loop.simps shift_probe_bit) simp
    next
      case False
      with r have "r = SR_ERR" by simp
      with body nolimit tk show ?thesis
        by (simp only: configure_probes_loop.simps) simp
    qed
  qed
qed

subsection \<open>Trigger strings\<close>

text \<open>
  A probe whose trigger is absent, empty or one of the four symbols passes the loop
  body; an enabled probe with any other trigger string stops the loop with \<open>SR_ERR\<close>,
  wherever it stands in the list.
\<close>

lemma cstr_at_single [simp]: "cstr_at [c] 0 = c" "cstr_at [c] (Suc 0) = CHR 0x00"
  by (simp_all add: cstr_at_def)

lemma cstr_at_empty [simp]: "cstr_at [] i = CHR 0x00"
  by (simp add: cstr_at_def)

lemma configure_probe_valid:
  assumes "\<And>p. node = Some p \<Longrightarrow>
             trigger p \<in> {None, Some '''', Some ''0'', Some ''1'', Some ''r'', Some ''f''}"
  shows "fst (configure_probe b node d) = SR_OK"
proof (cases node)
  case None
  then show ?thesis by (simp add: configure_probe_def)
next
  case (Some q)
  with assms have "trigger q \<in> {None, Some '''', Some ''0'', Some ''1'', Some ''r'', Some ''f''}"
    by simp
  with Some show ?thesis
    by (auto simp: configure_probe_def Let_def)
qed

lemma configure_probe_invalid:
  assumes "enabled p" and "trigger p = Some s" and "s \<noteq> []" and "CHR 0x00 \<notin> set s"
    and "s \<notin> {''0'', ''1'', ''r'', ''f''}"
  shows "fst (configure_probe b (Some p) d) = SR_ERR"
proof (cases s)
  case Nil
  with assms show ?thesis by simp
next
  case (Cons c rest)
  with assms have c: "c \<noteq> CHR 0x00" "cstr_at s 0 = c" by (auto simp: cstr_at_def)
  show ?thesis
  proof (cases rest)
    case Nil
    with Cons assms c show ?thesis
      by (auto simp: configure_probe_def Let_def)
  next
    case (Cons c2 rest2)
    with \<open>s = c # rest\<close> assms have "cstr_at s 1 \<noteq> CHR 0x00" by (auto simp: cstr_at_def)
    with assms c show ?thesis
      by (simp add: configure_probe_def Let_def)
  qed
qed

lemma configure_probes_loop_invalid:
  assumes "Some p \<in> set nodes" and "enabled p" and "trigger p = Some s" and "s \<noteq> []"
    and "CHR 0x00 \<notin> set s" and "s \<notin> {''0'', ''1'', ''r'', ''f''}"
  shows "fst (configure_probes_loop np nodes b d) = SR_ERR"
  using assms(1)
proof (induction nodes arbitrary: b d)
  case Nil
  then show ?case by simp
next
  case (Cons node nodes)
  obtain r d1 where body: "configure_probe b node d = (r, d1)" by (cases "configure_probe b node d")
  with configure_probe_ret [of b node d] have r: "r = SR_OK \<or> r = SR_ERR" by simp
  show ?case
  proof (cases "node = Some p")
    case True
    with configure_probe_invalid [OF assms(2-6), of b d] body have "r = SR_ERR" by simp
    with body show ?thesis by simp
  next
    case False
    with Cons.prems have "Some p \<in> set nodes" by simp
    then have "fst (configure_probes_loop np nodes (push_bit 1 b) d1) = SR_ERR" by (rule Cons.IH)
    with body r show ?thesis by auto
  qed
qed

lemma configure_probes_loop_valid:
  assumes "np < 64" and "i + length nodes \<le> np"
    and "\<And>p. Some p \<in> set nodes \<Longrightarrow>
           trigger p \<in> {None, Some '''', Some ''0'', Some ''1'', Some ''r'', Some ''f''}"
  shows "fst (configure_probes_loop np nodes (2 ^ i) d) = SR_OK"
  using assms
proof (induction nodes arbitrary: i d)
  case Nil
  then show ?case by simp
next
  case (Cons node nodes)
  from Cons.prems have lt: "i < np" "i < 64" by simp_all
  then have nolimit: "\<not> push_bit np (1::u64) \<le> 2 ^ i"
    using Cons.prems(1) by (simp add: limit_reached_iff)
  obtain r d1 where body: "configure_probe (2 ^ i) node d = (r, d1)"
    by (cases "configure_probe (2 ^ i) node d")
  have "fst (configure_probe (2 ^ i) node d) = SR_OK"
    by (rule configure_probe_valid) (use Cons.prems(3) in auto)
  with body have r: "r = SR_OK" by simp
  have "fst (configure_probes_loop np nodes (2 ^ Suc i) d1) = SR_OK"
    using Cons.prems by (intro Cons.IH) simp_all
  with r body nolimit show ?case
    by (simp only: configure_probes_loop.simps shift_probe_bit) simp
qed

subsection \<open>The subset chain and the untouched fields\<close>

text \<open>
  The loop body sets the channel bit before the trigger bit and the trigger bit before
  the edge bit, so containment of the edge mask in the trigger mask and of the trigger
  mask in the channel mask is an invariant. The body writes the four masks only.
\<close>

lemma subset_step: "(t::u64) AND c = t \<Longrightarrow> (t OR b) AND (c OR b) = t OR b"
  by (simp add: bit_eq_iff bit_simps) blast

lemma subset_grow: "(t::u64) AND c = t \<Longrightarrow> t AND (c OR b) = t"
  by (simp add: bit_eq_iff bit_simps) blast

lemma configure_probe_subset:
  assumes "trigger_edge_mask d AND trigger_mask d = trigger_edge_mask d"
    and "trigger_mask d AND channel_mask d = trigger_mask d"
  shows "trigger_edge_mask (snd (configure_probe b node d)) AND trigger_mask (snd (configure_probe b node d))
           = trigger_edge_mask (snd (configure_probe b node d))
         \<and> trigger_mask (snd (configure_probe b node d)) AND channel_mask (snd (configure_probe b node d))
           = trigger_mask (snd (configure_probe b node d))"
  using assms
  by (simp add: configure_probe_def Let_def subset_step subset_grow split: option.split)

lemma configure_probes_loop_subset:
  assumes "trigger_edge_mask d AND trigger_mask d = trigger_edge_mask d"
    and "trigger_mask d AND channel_mask d = trigger_mask d"
  shows "trigger_edge_mask (snd (configure_probes_loop np nodes b d))
             AND trigger_mask (snd (configure_probes_loop np nodes b d))
           = trigger_edge_mask (snd (configure_probes_loop np nodes b d))
         \<and> trigger_mask (snd (configure_probes_loop np nodes b d))
             AND channel_mask (snd (configure_probes_loop np nodes b d))
           = trigger_mask (snd (configure_probes_loop np nodes b d))"
  using assms
proof (induction nodes arbitrary: b d)
  case Nil
  then show ?case by simp
next
  case (Cons node nodes)
  obtain r d1 where body: "configure_probe b node d = (r, d1)" by (cases "configure_probe b node d")
  with configure_probe_subset [OF Cons.prems, of b node]
  have inv: "trigger_edge_mask d1 AND trigger_mask d1 = trigger_edge_mask d1"
    "trigger_mask d1 AND channel_mask d1 = trigger_mask d1" by simp_all
  from Cons.IH [OF inv] body inv Cons.prems show ?case by simp
qed

lemma configure_probe_frame:
  "snd (configure_probe b node d)
     \<lparr>channel_mask := 0, trigger_mask := 0, trigger_edge_mask := 0, trigger_values := 0\<rparr>
   = d\<lparr>channel_mask := 0, trigger_mask := 0, trigger_edge_mask := 0, trigger_values := 0\<rparr>"
  by (simp add: configure_probe_def Let_def split: option.split)

lemma configure_probes_loop_frame:
  "snd (configure_probes_loop np nodes b d)
     \<lparr>channel_mask := 0, trigger_mask := 0, trigger_edge_mask := 0, trigger_values := 0\<rparr>
   = d\<lparr>channel_mask := 0, trigger_mask := 0, trigger_edge_mask := 0, trigger_values := 0\<rparr>"
proof (induction nodes arbitrary: b d)
  case Nil
  then show ?case by simp
next
  case (Cons node nodes)
  obtain r d1 where body: "configure_probe b node d = (r, d1)" by (cases "configure_probe b node d")
  with configure_probe_frame [of b node d] Cons.IH [of "push_bit 1 b" d1] show ?case by simp
qed

subsection \<open>Bit positions\<close>

text \<open>
  The iteration at position \<open>k\<close> changes bit \<open>k\<close> of the masks and no other bit, so
  the bits of a position are decided by the probe at that position alone.
\<close>

lemma bit_or_probe_bit: "bit (x OR 2 ^ k :: u64) j \<longleftrightarrow> bit x j \<or> (j = k \<and> k < 64)"
  by (auto simp: bit_simps)

lemma configure_probe_other_bits:
  assumes "j \<noteq> k"
  shows "bit (channel_mask (snd (configure_probe (2 ^ k) node d))) j = bit (channel_mask d) j"
    and "bit (trigger_mask (snd (configure_probe (2 ^ k) node d))) j = bit (trigger_mask d) j"
    and "bit (trigger_edge_mask (snd (configure_probe (2 ^ k) node d))) j = bit (trigger_edge_mask d) j"
    and "bit (trigger_values (snd (configure_probe (2 ^ k) node d))) j = bit (trigger_values d) j"
  using assms
  by (simp_all add: configure_probe_def Let_def bit_or_probe_bit split: option.split)

lemma configure_probes_loop_lower_bits:
  assumes "j < k"
  shows "bit (channel_mask (snd (configure_probes_loop np nodes (2 ^ k) d))) j = bit (channel_mask d) j
       \<and> bit (trigger_mask (snd (configure_probes_loop np nodes (2 ^ k) d))) j = bit (trigger_mask d) j
       \<and> bit (trigger_edge_mask (snd (configure_probes_loop np nodes (2 ^ k) d))) j
           = bit (trigger_edge_mask d) j
       \<and> bit (trigger_values (snd (configure_probes_loop np nodes (2 ^ k) d))) j
           = bit (trigger_values d) j"
  using assms
proof (induction nodes arbitrary: k d)
  case Nil
  then show ?case by simp
next
  case (Cons node nodes)
  obtain r d1 where body: "configure_probe (2 ^ k) node d = (r, d1)"
    by (cases "configure_probe (2 ^ k) node d")
  from Cons.prems have ne: "j \<noteq> k" and lt: "j < Suc k" by simp_all
  from configure_probe_other_bits [OF ne, of node d] body
  have same: "bit (channel_mask d1) j = bit (channel_mask d) j"
    "bit (trigger_mask d1) j = bit (trigger_mask d) j"
    "bit (trigger_edge_mask d1) j = bit (trigger_edge_mask d) j"
    "bit (trigger_values d1) j = bit (trigger_values d) j" by simp_all
  from Cons.IH [OF lt, of d1] same body show ?case
    by (simp only: configure_probes_loop.simps shift_probe_bit) simp
qed

lemma configure_probe_own_bit:
  assumes "k < 64" and "enabled p" and "trigger p = Some [c]"
    and "c \<in> {CHR ''0'', CHR ''1'', CHR ''r'', CHR ''f''}"
  shows "fst (configure_probe (2 ^ k) (Some p) d) = SR_OK"
    and "bit (channel_mask (snd (configure_probe (2 ^ k) (Some p) d))) k"
    and "bit (trigger_mask (snd (configure_probe (2 ^ k) (Some p) d))) k"
    and "bit (trigger_edge_mask (snd (configure_probe (2 ^ k) (Some p) d))) k
           \<longleftrightarrow> bit (trigger_edge_mask d) k \<or> c \<in> {CHR ''r'', CHR ''f''}"
    and "bit (trigger_values (snd (configure_probe (2 ^ k) (Some p) d))) k
           \<longleftrightarrow> bit (trigger_values d) k \<or> c \<in> {CHR ''1'', CHR ''r''}"
  using assms
  by (auto simp: configure_probe_def Let_def bit_or_probe_bit)

lemma configure_probes_loop_bits:
  assumes "np < 64" and "k \<le> np"
    and "configure_probes_loop np nodes (2 ^ k) d = (SR_OK, d')"
    and "m < length nodes" and "nodes ! m = Some p"
    and "enabled p" and "trigger p = Some [c]"
    and "c \<in> {CHR ''0'', CHR ''1'', CHR ''r'', CHR ''f''}"
  shows "bit (channel_mask d') (k + m) \<and> bit (trigger_mask d') (k + m)
       \<and> (bit (trigger_edge_mask d') (k + m)
            \<longleftrightarrow> bit (trigger_edge_mask d) (k + m) \<or> c \<in> {CHR ''r'', CHR ''f''})
       \<and> (bit (trigger_values d') (k + m)
            \<longleftrightarrow> bit (trigger_values d) (k + m) \<or> c \<in> {CHR ''1'', CHR ''r''})"
  using assms(2-5)
proof (induction nodes arbitrary: k d m)
  case Nil
  then show ?case by simp
next
  case (Cons node nodes)
  obtain r d1 where body: "configure_probe (2 ^ k) node d = (r, d1)"
    by (cases "configure_probe (2 ^ k) node d")
  have nolimit: "\<not> push_bit np (1::u64) \<le> 2 ^ k"
  proof
    assume "push_bit np (1::u64) \<le> 2 ^ k"
    with Cons.prems(2) show False by simp
  qed
  with Cons.prems(1) assms(1) have lt: "k < np" "k < 64"
    by (simp_all add: limit_reached_iff)
  from Cons.prems(2) body nolimit have r: "r = SR_OK"
    by (cases "r = SR_OK") simp_all
  with Cons.prems(2) body nolimit
  have rest: "configure_probes_loop np nodes (2 ^ Suc k) d1 = (SR_OK, d')"
    by (simp only: configure_probes_loop.simps shift_probe_bit) simp
  show ?case
  proof (cases m)
    case 0
    with Cons.prems(4) have node: "node = Some p" by simp
    from configure_probes_loop_lower_bits [of k "Suc k" np nodes d1] rest
    have keep: "bit (channel_mask d') k = bit (channel_mask d1) k"
      "bit (trigger_mask d') k = bit (trigger_mask d1) k"
      "bit (trigger_edge_mask d') k = bit (trigger_edge_mask d1) k"
      "bit (trigger_values d') k = bit (trigger_values d1) k" by simp_all
    from configure_probe_own_bit [OF lt(2) assms(6-8), of d] body node
    have "bit (channel_mask d1) k" "bit (trigger_mask d1) k"
      "bit (trigger_edge_mask d1) k \<longleftrightarrow> bit (trigger_edge_mask d) k \<or> c \<in> {CHR ''r'', CHR ''f''}"
      "bit (trigger_values d1) k \<longleftrightarrow> bit (trigger_values d) k \<or> c \<in> {CHR ''1'', CHR ''r''}"
      by simp_all
    with keep 0 show ?thesis by simp
  next
    case (Suc m')
    with Cons.prems have m': "m' < length nodes" "nodes ! m' = Some p" by simp_all
    from lt have le: "Suc k \<le> np" by simp
    have ne: "Suc k + m' \<noteq> k" by simp
    from configure_probe_other_bits [OF ne, of node d] body
    have same: "bit (trigger_edge_mask d1) (Suc k + m') = bit (trigger_edge_mask d) (Suc k + m')"
      "bit (trigger_values d1) (Suc k + m') = bit (trigger_values d) (Suc k + m')" by simp_all
    from Cons.IH [OF le rest m'] same Suc show ?thesis by simp
  qed
qed

subsection \<open>Disabled probes and the origin of the bits\<close>

text \<open>
  A disabled probe leaves the loop body at its first test, so its trigger string has
  no effect on the run. A bit that is set in a mask after the loop was either set
  before it or belongs to the position of an enabled probe below the channel limit.
\<close>

lemma configure_probe_disabled:
  "\<not> enabled p \<Longrightarrow> configure_probe b (Some p) d = (SR_OK, d)"
  by (simp add: configure_probe_def)

lemma configure_probes_loop_disabled_trigger:
  assumes "i < length nodes" and "nodes ! i = Some p" and "\<not> enabled p"
  shows "configure_probes_loop np (nodes[i := Some (p\<lparr>trigger := t\<rparr>)]) b d
           = configure_probes_loop np nodes b d"
  using assms(1,2)
proof (induction nodes arbitrary: i b d)
  case Nil
  then show ?case by simp
next
  case (Cons node nodes)
  show ?case
  proof (cases i)
    case 0
    with Cons.prems have "node = Some p" by simp
    with 0 assms(3) show ?thesis by (simp add: configure_probe_disabled)
  next
    case (Suc i')
    with Cons.prems have "i' < length nodes" "nodes ! i' = Some p" by simp_all
    from Cons.IH [OF this] Suc show ?thesis by (simp split: prod.split)
  qed
qed

lemma configure_probe_bits_origin:
  assumes "bit (channel_mask (snd (configure_probe (2 ^ k) node d))) j
         \<or> bit (trigger_mask (snd (configure_probe (2 ^ k) node d))) j
         \<or> bit (trigger_edge_mask (snd (configure_probe (2 ^ k) node d))) j
         \<or> bit (trigger_values (snd (configure_probe (2 ^ k) node d))) j"
  shows "bit (channel_mask d) j \<or> bit (trigger_mask d) j
         \<or> bit (trigger_edge_mask d) j \<or> bit (trigger_values d) j
         \<or> (j = k \<and> (\<exists>p. node = Some p \<and> enabled p))"
  using assms
  by (auto simp: configure_probe_def Let_def bit_or_probe_bit split: option.splits if_splits)

lemma configure_probes_loop_bits_origin:
  assumes "np < 64" and "k \<le> np"
    and "bit (channel_mask (snd (configure_probes_loop np nodes (2 ^ k) d))) j
         \<or> bit (trigger_mask (snd (configure_probes_loop np nodes (2 ^ k) d))) j
         \<or> bit (trigger_edge_mask (snd (configure_probes_loop np nodes (2 ^ k) d))) j
         \<or> bit (trigger_values (snd (configure_probes_loop np nodes (2 ^ k) d))) j"
  shows "bit (channel_mask d) j \<or> bit (trigger_mask d) j
         \<or> bit (trigger_edge_mask d) j \<or> bit (trigger_values d) j
         \<or> (k \<le> j \<and> j < np \<and> j - k < length nodes
              \<and> (\<exists>p. nodes ! (j - k) = Some p \<and> enabled p))"
  using assms(2,3)
proof (induction nodes arbitrary: k d)
  case Nil
  then show ?case by simp
next
  case (Cons node nodes)
  obtain r d1 where body: "configure_probe (2 ^ k) node d = (r, d1)"
    by (cases "configure_probe (2 ^ k) node d")
  show ?case
  proof (cases "push_bit np (1::u64) \<le> 2 ^ k")
    case True
    with Cons.prems(2) have "bit (channel_mask d) j \<or> bit (trigger_mask d) j
         \<or> bit (trigger_edge_mask d) j \<or> bit (trigger_values d) j" by simp
    then show ?thesis by blast
  next
    case False
    with Cons.prems(1) assms(1) have lt: "k < np" by (simp add: limit_reached_iff)
    show ?thesis
    proof (cases "r = SR_OK")
      case True
      with body False Cons.prems(2)
      have set': "bit (channel_mask (snd (configure_probes_loop np nodes (2 ^ Suc k) d1))) j
         \<or> bit (trigger_mask (snd (configure_probes_loop np nodes (2 ^ Suc k) d1))) j
         \<or> bit (trigger_edge_mask (snd (configure_probes_loop np nodes (2 ^ Suc k) d1))) j
         \<or> bit (trigger_values (snd (configure_probes_loop np nodes (2 ^ Suc k) d1))) j"
        by (simp only: configure_probes_loop.simps shift_probe_bit) simp
      from lt have "Suc k \<le> np" by simp
      from Cons.IH [OF this set']
      consider (old) "bit (channel_mask d1) j \<or> bit (trigger_mask d1) j
         \<or> bit (trigger_edge_mask d1) j \<or> bit (trigger_values d1) j"
        | (new) "Suc k \<le> j" "j < np" "j - Suc k < length nodes"
            "\<exists>p. nodes ! (j - Suc k) = Some p \<and> enabled p" by blast
      then show ?thesis
      proof cases
        case old
        with configure_probe_bits_origin [of k node d j] body lt show ?thesis by auto
      next
        case new
        from new(1) have "j - k = Suc (j - Suc k)" by simp
        then have "(node # nodes) ! (j - k) = nodes ! (j - Suc k)" by simp
        with new show ?thesis by auto
      qed
    next
      case False
      with body \<open>\<not> push_bit np (1::u64) \<le> 2 ^ k\<close> Cons.prems(2)
      have "bit (channel_mask d1) j \<or> bit (trigger_mask d1) j
         \<or> bit (trigger_edge_mask d1) j \<or> bit (trigger_values d1) j"
        by simp
      with configure_probe_bits_origin [of k node d j] body lt show ?thesis by auto
    qed
  qed
qed

subsection \<open>The whole function\<close>

lemma configure_probes_unfold:
  assumes "priv sdi = Some devc"
  shows "configure_probes np sdi =
    Some (fst (configure_probes_loop np (probes sdi) 1
                 (devc\<lparr>channel_mask := 0, trigger_mask := 0,
                        trigger_edge_mask := 0, trigger_values := 0\<rparr>)),
          sdi\<lparr>priv := Some (snd (configure_probes_loop np (probes sdi) 1
                 (devc\<lparr>channel_mask := 0, trigger_mask := 0,
                        trigger_edge_mask := 0, trigger_values := 0\<rparr>)))\<rparr>)"
  using assms by (simp add: configure_probes_def Let_def split: prod.split)

lemma configure_probes_scenario_over_limit:
  "configure_probes 3 (sdi_idle\<lparr>probes := probes_scenario @ [x]\<rparr>)
     = Some (SR_ERR, sdi_idle\<lparr>probes := probes_scenario @ [x], priv := Some devc_scenario\<rparr>)"
  by (simp add: configure_probes_def sdi_idle_def devc_idle_def devc_scenario_def
      probes_scenario_def configure_probe_def cstr_at_def Let_def word_le_nat_alt)

lemma configure_probes_scenario_any:
  assumes "priv sdi = Some devc" and "probes sdi = probes_scenario"
  shows "configure_probes 3 sdi =
           Some (SR_OK, sdi\<lparr>priv := Some (devc\<lparr>channel_mask := 3, trigger_mask := 1,
                                              trigger_edge_mask := 1, trigger_values := 1\<rparr>)\<rparr>)"
  using assms
  by (simp add: configure_probes_def probes_scenario_def configure_probe_def cstr_at_def
      Let_def word_le_nat_alt)

text \<open>
  C1, amended: for a probe list longer than the channel limit (a limit below 64),
  \<^verbatim>\<open>configure_probes\<close> returns \<open>SR_ERR\<close>, the one code it has for every failure, and
  the four masks are not the ones held before the call. The call clears them at entry:
  whatever values the four masks held before, the Device Context after the failed call
  is the same one, namely the one that compiling the first \<open>num_probes\<close> entries
  leaves. Every bit set in a mask afterwards is the bit of an enabled probe at a
  position below the limit. Every field of the Device Context other than the four
  masks, and the rest of the device instance, is unchanged.
\<close>

theorem configure_probes_over_limit_state:
  assumes "num_probes < 64" and "priv sdi = Some devc" and "num_probes < length (probes sdi)"
  shows "\<exists>devc'.
           configure_probes num_probes sdi = Some (SR_ERR, sdi\<lparr>priv := Some devc'\<rparr>)
         \<and> devc'\<lparr>channel_mask := 0, trigger_mask := 0, trigger_edge_mask := 0, trigger_values := 0\<rparr>
             = devc\<lparr>channel_mask := 0, trigger_mask := 0, trigger_edge_mask := 0, trigger_values := 0\<rparr>
         \<and> (\<forall>cm tm em tv.
               configure_probes num_probes
                 (sdi\<lparr>priv := Some (devc\<lparr>channel_mask := cm, trigger_mask := tm,
                                         trigger_edge_mask := em, trigger_values := tv\<rparr>)\<rparr>)
               = Some (SR_ERR, sdi\<lparr>priv := Some devc'\<rparr>))
         \<and> (\<exists>r. configure_probes num_probes (sdi\<lparr>probes := take num_probes (probes sdi)\<rparr>)
               = Some (r, sdi\<lparr>probes := take num_probes (probes sdi), priv := Some devc'\<rparr>))
         \<and> (\<forall>j. bit (channel_mask devc') j \<or> bit (trigger_mask devc') j
                 \<or> bit (trigger_edge_mask devc') j \<or> bit (trigger_values devc') j
               \<longrightarrow> j < num_probes \<and> (\<exists>p. probes sdi ! j = Some p \<and> enabled p))"
proof -
  let ?d0 = "devc\<lparr>channel_mask := 0, trigger_mask := 0, trigger_edge_mask := 0, trigger_values := 0\<rparr>"
  let ?pre = "take num_probes (probes sdi)"
  let ?d1 = "snd (configure_probes_loop num_probes ?pre 1 ?d0)"
  have over: "configure_probes_loop num_probes (probes sdi) 1 ?d0 = (SR_ERR, ?d1)"
    using configure_probes_loop_over_limit [of num_probes 0 "probes sdi" ?d0] assms by simp
  have run: "configure_probes num_probes sdi = Some (SR_ERR, sdi\<lparr>priv := Some ?d1\<rparr>)"
    by (simp add: configure_probes_unfold [OF assms(2)] over)
  have frame: "?d1\<lparr>channel_mask := 0, trigger_mask := 0, trigger_edge_mask := 0, trigger_values := 0\<rparr>
                 = ?d0"
    using configure_probes_loop_frame [of num_probes ?pre 1 ?d0] by simp
  have prior: "configure_probes num_probes
                 (sdi\<lparr>priv := Some (devc\<lparr>channel_mask := cm, trigger_mask := tm,
                                         trigger_edge_mask := em, trigger_values := tv\<rparr>)\<rparr>)
               = Some (SR_ERR, sdi\<lparr>priv := Some ?d1\<rparr>)" for cm tm em tv
    by (simp add: configure_probes_def Let_def over)
  have pre: "configure_probes num_probes (sdi\<lparr>probes := ?pre\<rparr>)
               = Some (fst (configure_probes_loop num_probes ?pre 1 ?d0),
                       sdi\<lparr>probes := ?pre, priv := Some ?d1\<rparr>)"
    using assms(2) by (simp add: configure_probes_def Let_def split: prod.split)
  have origin: "j < num_probes \<and> (\<exists>p. probes sdi ! j = Some p \<and> enabled p)"
    if "bit (channel_mask ?d1) j \<or> bit (trigger_mask ?d1) j
          \<or> bit (trigger_edge_mask ?d1) j \<or> bit (trigger_values ?d1) j" for j
  proof -
    from that over
    have "bit (channel_mask (snd (configure_probes_loop num_probes (probes sdi) (2 ^ 0) ?d0))) j
         \<or> bit (trigger_mask (snd (configure_probes_loop num_probes (probes sdi) (2 ^ 0) ?d0))) j
         \<or> bit (trigger_edge_mask (snd (configure_probes_loop num_probes (probes sdi) (2 ^ 0) ?d0))) j
         \<or> bit (trigger_values (snd (configure_probes_loop num_probes (probes sdi) (2 ^ 0) ?d0))) j"
      by simp
    from configure_probes_loop_bits_origin [OF assms(1) _ this] show ?thesis by simp
  qed
  from run frame prior pre origin show ?thesis by blast
qed

text \<open>
  On a 3-channel limit, the scenario list with a fourth probe, on a Device Context
  whose masks are 255, 4, 4 and 4: the call fails and the masks are 3, 1, 1 and 1,
  those of the first three probes.
\<close>

theorem configure_probes_over_limit_state_witness:
  "(3::nat) < 64 \<and> priv sdi_over_limit = Some devc_stale \<and> 3 < length (probes sdi_over_limit)
   \<and> channel_mask devc_stale = 255 \<and> trigger_mask devc_stale = 4
   \<and> trigger_edge_mask devc_stale = 4 \<and> trigger_values devc_stale = 4
   \<and> configure_probes 3 sdi_over_limit = Some (SR_ERR, sdi_over_limit\<lparr>priv := Some devc_scenario\<rparr>)
   \<and> configure_probes 3 (sdi_over_limit\<lparr>probes := take 3 (probes sdi_over_limit)\<rparr>)
       = Some (SR_OK, sdi_idle\<lparr>priv := Some devc_scenario\<rparr>)
   \<and> channel_mask devc_scenario = 3 \<and> trigger_mask devc_scenario = 1
   \<and> trigger_edge_mask devc_scenario = 1 \<and> trigger_values devc_scenario = 1"
proof -
  have h: "(3::nat) < 64" "priv sdi_over_limit = Some devc_stale" "3 < length (probes sdi_over_limit)"
    by (simp_all add: sdi_over_limit_def sdi_idle_def probes_scenario_def)
  have p: "priv (sdi_over_limit\<lparr>probes := take 3 (probes sdi_over_limit)\<rparr>) = Some devc_stale"
    "probes (sdi_over_limit\<lparr>probes := take 3 (probes sdi_over_limit)\<rparr>) = probes_scenario"
    by (simp_all add: sdi_over_limit_def sdi_idle_def probes_scenario_def)
  have pre: "configure_probes 3 (sdi_over_limit\<lparr>probes := take 3 (probes sdi_over_limit)\<rparr>)
       = Some (SR_OK, sdi_idle\<lparr>priv := Some devc_scenario\<rparr>)"
    by (simp add: configure_probes_scenario_any [OF p])
       (simp add: sdi_over_limit_def sdi_idle_def probes_scenario_def devc_scenario_def
          devc_stale_def devc_idle_def)
  from configure_probes_over_limit_state [OF h] obtain devc' r where
    fails: "configure_probes 3 sdi_over_limit = Some (SR_ERR, sdi_over_limit\<lparr>priv := Some devc'\<rparr>)"
    and same: "configure_probes 3 (sdi_over_limit\<lparr>probes := take 3 (probes sdi_over_limit)\<rparr>)
       = Some (r, sdi_over_limit\<lparr>probes := take 3 (probes sdi_over_limit), priv := Some devc'\<rparr>)"
    by blast
  from same pre have "devc' = devc_scenario"
    by (simp add: sdi_over_limit_def sdi_idle_def)
  with fails h show ?thesis
    using pre by (simp add: devc_stale_def devc_scenario_def devc_idle_def)
qed

text \<open>
  The masks are not preserved by a failed call: before it they are 255, 4, 4 and 4,
  after it they are 3, 1, 1 and 1.
\<close>

theorem configure_probes_over_limit_counterexample:
  "priv sdi_over_limit = Some devc_stale
   \<and> length (probes sdi_over_limit) = 4
   \<and> configure_probes 3 sdi_over_limit = Some (SR_ERR, sdi_over_limit\<lparr>priv := Some devc_scenario\<rparr>)
   \<and> channel_mask devc_stale = 255 \<and> channel_mask devc_scenario = 3
   \<and> trigger_mask devc_stale = 4 \<and> trigger_mask devc_scenario = 1
   \<and> trigger_edge_mask devc_stale = 4 \<and> trigger_edge_mask devc_scenario = 1
   \<and> trigger_values devc_stale = 4 \<and> trigger_values devc_scenario = 1"
  by (simp add: configure_probes_def sdi_over_limit_def sdi_idle_def devc_idle_def devc_scenario_def
        devc_stale_def probes_scenario_def configure_probe_def cstr_at_def Let_def word_le_nat_alt)

text \<open>
  C10: the channel limit is tested on the list position alone. When \<open>num_probes\<close>
  entries (a limit below 64) are followed by at least one more, \<^verbatim>\<open>configure_probes\<close>
  returns \<open>SR_ERR\<close> whatever the entry \<open>x\<close> at the first position beyond the limit is
  (a \<^verbatim>\<open>NULL\<close> node, a disabled probe without trigger, anything) and whatever follows
  it, and the Device Context it leaves does not depend on them either.
\<close>

theorem configure_probes_limit_by_position:
  assumes "num_probes < 64" and "priv sdi = Some devc" and "length pre = num_probes"
  shows "\<exists>devc'. \<forall>x post.
           configure_probes num_probes (sdi\<lparr>probes := pre @ x # post\<rparr>)
             = Some (SR_ERR, sdi\<lparr>probes := pre @ x # post, priv := Some devc'\<rparr>)"
proof -
  let ?d0 = "devc\<lparr>channel_mask := 0, trigger_mask := 0, trigger_edge_mask := 0, trigger_values := 0\<rparr>"
  have "configure_probes num_probes (sdi\<lparr>probes := pre @ x # post\<rparr>)
          = Some (SR_ERR, sdi\<lparr>probes := pre @ x # post,
                    priv := Some (snd (configure_probes_loop num_probes pre 1 ?d0))\<rparr>)" for x post
  proof -
    have p: "priv (sdi\<lparr>probes := pre @ x # post\<rparr>) = Some devc" using assms by simp
    have "configure_probes_loop num_probes (pre @ x # post) 1 ?d0 =
          (SR_ERR, snd (configure_probes_loop num_probes (take num_probes (pre @ x # post)) 1 ?d0))"
      using configure_probes_loop_over_limit [of num_probes 0 "pre @ x # post" ?d0] assms by simp
    with assms(3) show ?thesis by (simp add: configure_probes_unfold [OF p])
  qed
  then show ?thesis by blast
qed

text \<open>
  Three probes on a 3-channel limit, followed by one disabled probe without trigger, or
  by two \<^verbatim>\<open>NULL\<close> nodes: both calls fail and leave the same Device Context.
\<close>

theorem configure_probes_limit_by_position_witness:
  "(3::nat) < 64 \<and> priv sdi_idle = Some devc_idle \<and> length probes_scenario = 3
   \<and> configure_probes 3 (sdi_idle\<lparr>probes := probes_scenario @ [Some \<lparr>enabled = False, trigger = None\<rparr>]\<rparr>)
       = Some (SR_ERR, sdi_idle\<lparr>probes := probes_scenario @ [Some \<lparr>enabled = False, trigger = None\<rparr>],
                               priv := Some devc_scenario\<rparr>)
   \<and> configure_probes 3 (sdi_idle\<lparr>probes := probes_scenario @ [None, None]\<rparr>)
       = Some (SR_ERR, sdi_idle\<lparr>probes := probes_scenario @ [None, None],
                               priv := Some devc_scenario\<rparr>)"
proof -
  have h: "(3::nat) < 64" "priv sdi_idle = Some devc_idle" "length probes_scenario = 3"
    by (simp_all add: sdi_idle_def probes_scenario_def)
  from configure_probes_limit_by_position [OF h] obtain devc' where
    all: "\<And>x post. configure_probes 3 (sdi_idle\<lparr>probes := probes_scenario @ x # post\<rparr>)
             = Some (SR_ERR, sdi_idle\<lparr>probes := probes_scenario @ x # post, priv := Some devc'\<rparr>)"
    by blast
  from all [of None "[]"] configure_probes_scenario_over_limit [of None]
  have "devc' = devc_scenario"
    by (simp add: sdi_idle_def)
  with all [of "Some \<lparr>enabled = False, trigger = None\<rparr>" "[]"] all [of None "[None]"] h
  show ?thesis by simp
qed

text \<open>
  C4: for a probe list no longer than the channel limit (a limit below 64) in which
  every trigger is absent, empty or one of the symbols 0, 1, r, f,
  \<^verbatim>\<open>configure_probes\<close> returns \<open>SR_OK\<close>, the edge mask is bitwise contained in the
  trigger mask and the trigger mask in the channel mask, and running it again on the
  device it returned gives the same device, with identical masks.
\<close>

theorem configure_probes_subset_chain:
  assumes "num_probes < 64" and "priv sdi = Some devc" and "length (probes sdi) \<le> num_probes"
    and "\<forall>p. Some p \<in> set (probes sdi) \<longrightarrow>
           trigger p \<in> {None, Some '''', Some ''0'', Some ''1'', Some ''r'', Some ''f''}"
  shows "\<exists>sdi' devc'.
           configure_probes num_probes sdi = Some (SR_OK, sdi')
         \<and> priv sdi' = Some devc'
         \<and> trigger_edge_mask devc' AND trigger_mask devc' = trigger_edge_mask devc'
         \<and> trigger_mask devc' AND channel_mask devc' = trigger_mask devc'
         \<and> configure_probes num_probes sdi' = Some (SR_OK, sdi')"
proof -
  let ?d0 = "devc\<lparr>channel_mask := 0, trigger_mask := 0, trigger_edge_mask := 0, trigger_values := 0\<rparr>"
  let ?d1 = "snd (configure_probes_loop num_probes (probes sdi) 1 ?d0)"
  let ?sdi' = "sdi\<lparr>priv := Some ?d1\<rparr>"
  have ok: "fst (configure_probes_loop num_probes (probes sdi) 1 ?d0) = SR_OK"
    using configure_probes_loop_valid [of num_probes 0 "probes sdi" ?d0] assms by simp
  then have first: "configure_probes num_probes sdi = Some (SR_OK, ?sdi')"
    by (simp add: configure_probes_unfold [OF assms(2)])
  have chain: "trigger_edge_mask ?d1 AND trigger_mask ?d1 = trigger_edge_mask ?d1
             \<and> trigger_mask ?d1 AND channel_mask ?d1 = trigger_mask ?d1"
    by (rule configure_probes_loop_subset) simp_all
  have again: "?d1\<lparr>channel_mask := 0, trigger_mask := 0, trigger_edge_mask := 0, trigger_values := 0\<rparr>
                 = ?d0"
    using configure_probes_loop_frame [of num_probes "probes sdi" 1 ?d0] by simp
  have p': "priv ?sdi' = Some ?d1" by simp
  have second: "configure_probes num_probes ?sdi' = Some (SR_OK, ?sdi')"
    by (simp add: configure_probes_unfold [OF p'] again ok)
  from first chain second show ?thesis by simp
qed

theorem configure_probes_subset_chain_witness:
  "(3::nat) < 64 \<and> priv sdi_idle = Some devc_idle \<and> length (probes sdi_idle) \<le> 3
   \<and> map (map_option trigger) (probes sdi_idle) = [Some (Some ''r''), Some (Some ''''), Some None]
   \<and> (\<exists>sdi' devc'.
           configure_probes 3 sdi_idle = Some (SR_OK, sdi')
         \<and> priv sdi' = Some devc'
         \<and> trigger_edge_mask devc' AND trigger_mask devc' = trigger_edge_mask devc'
         \<and> trigger_mask devc' AND channel_mask devc' = trigger_mask devc'
         \<and> configure_probes 3 sdi' = Some (SR_OK, sdi'))"
proof -
  have h: "(3::nat) < 64" "priv sdi_idle = Some devc_idle" "length (probes sdi_idle) \<le> 3"
    "\<forall>p. Some p \<in> set (probes sdi_idle) \<longrightarrow>
           trigger p \<in> {None, Some '''', Some ''0'', Some ''1'', Some ''r'', Some ''f''}"
    by (auto simp: sdi_idle_def probes_scenario_def)
  have t: "map (map_option trigger) (probes sdi_idle) = [Some (Some ''r''), Some (Some ''''), Some None]"
    by (simp add: sdi_idle_def probes_scenario_def)
  from configure_probes_subset_chain [OF h] h(1-3) t show ?thesis by blast
qed

text \<open>
  C3, amended: the trigger of a probe is examined only when the probe is enabled.
  If the list holds an enabled probe whose trigger string is not empty and is not
  exactly one of the symbols 0, 1, r, f (two or more characters, or another single
  character), \<^verbatim>\<open>configure_probes\<close> returns \<open>SR_ERR\<close>. When the call returns \<open>SR_OK\<close>
  (channel limit below 64) and the enabled probe at list position \<open>i\<close> carries one of
  the four symbols, bit \<open>i\<close> of the channel mask and of the trigger mask is set, bit
  \<open>i\<close> of the edge mask is set exactly for r and f, and bit \<open>i\<close> of the trigger
  values exactly for 1 and r. For a disabled probe at position \<open>i\<close> the trigger is
  never read: replacing its trigger by any other, absent or present, valid or not,
  gives the same return code and the same Device Context, and bit \<open>i\<close> of all four
  masks is clear. The list [enabled with trigger r, enabled with empty trigger,
  disabled] on a 3-channel limit yields channel mask 3 and trigger mask, edge mask and
  trigger values 1, whatever the masks held before.
\<close>

theorem configure_probes_trigger_symbols:
  "(priv sdi = Some devc \<and> Some p \<in> set (probes sdi) \<and> enabled p \<and> trigger p = Some s
      \<and> s \<noteq> [] \<and> CHR 0x00 \<notin> set s \<and> s \<notin> {''0'', ''1'', ''r'', ''f''}
     \<longrightarrow> (\<exists>sdi'. configure_probes num_probes sdi = Some (SR_ERR, sdi')))
   \<and> (num_probes < 64 \<and> priv sdi = Some devc
      \<and> configure_probes num_probes sdi = Some (SR_OK, sdi')
      \<and> i < length (probes sdi) \<and> probes sdi ! i = Some q \<and> enabled q \<and> trigger q = Some [c]
      \<and> c \<in> {CHR ''0'', CHR ''1'', CHR ''r'', CHR ''f''}
     \<longrightarrow> (\<exists>devc'. priv sdi' = Some devc'
            \<and> bit (channel_mask devc') i
            \<and> bit (trigger_mask devc') i
            \<and> (bit (trigger_edge_mask devc') i \<longleftrightarrow> c \<in> {CHR ''r'', CHR ''f''})
            \<and> (bit (trigger_values devc') i \<longleftrightarrow> c \<in> {CHR ''1'', CHR ''r''})))
   \<and> (priv sdi = Some devc \<and> i < length (probes sdi) \<and> probes sdi ! i = Some q \<and> \<not> enabled q
     \<longrightarrow> (\<exists>r devc'.
            configure_probes num_probes sdi = Some (r, sdi\<lparr>priv := Some devc'\<rparr>)
          \<and> (\<forall>t. configure_probes num_probes
                     (sdi\<lparr>probes := (probes sdi)[i := Some (q\<lparr>trigger := t\<rparr>)]\<rparr>)
                   = Some (r, sdi\<lparr>probes := (probes sdi)[i := Some (q\<lparr>trigger := t\<rparr>)],
                                  priv := Some devc'\<rparr>))
          \<and> (num_probes < 64
              \<longrightarrow> \<not> bit (channel_mask devc') i \<and> \<not> bit (trigger_mask devc') i
                \<and> \<not> bit (trigger_edge_mask devc') i \<and> \<not> bit (trigger_values devc') i)))
   \<and> (priv sdi = Some devc \<and> probes sdi = probes_scenario
     \<longrightarrow> configure_probes 3 sdi =
           Some (SR_OK, sdi\<lparr>priv := Some (devc\<lparr>channel_mask := 3, trigger_mask := 1,
                                              trigger_edge_mask := 1, trigger_values := 1\<rparr>)\<rparr>))"
proof (intro conjI impI)
  assume a: "priv sdi = Some devc \<and> Some p \<in> set (probes sdi) \<and> enabled p \<and> trigger p = Some s
      \<and> s \<noteq> [] \<and> CHR 0x00 \<notin> set s \<and> s \<notin> {''0'', ''1'', ''r'', ''f''}"
  then have "fst (configure_probes_loop num_probes (probes sdi) 1
                 (devc\<lparr>channel_mask := 0, trigger_mask := 0,
                        trigger_edge_mask := 0, trigger_values := 0\<rparr>)) = SR_ERR"
    by (intro configure_probes_loop_invalid [of p _ s]) simp_all
  with a show "\<exists>sdi'. configure_probes num_probes sdi = Some (SR_ERR, sdi')"
    by (simp add: configure_probes_unfold [of sdi devc])
next
  let ?d0 = "devc\<lparr>channel_mask := 0, trigger_mask := 0, trigger_edge_mask := 0, trigger_values := 0\<rparr>"
  let ?d1 = "snd (configure_probes_loop num_probes (probes sdi) 1 ?d0)"
  assume b: "num_probes < 64 \<and> priv sdi = Some devc
      \<and> configure_probes num_probes sdi = Some (SR_OK, sdi')
      \<and> i < length (probes sdi) \<and> probes sdi ! i = Some q \<and> enabled q \<and> trigger q = Some [c]
      \<and> c \<in> {CHR ''0'', CHR ''1'', CHR ''r'', CHR ''f''}"
  then have run: "configure_probes_loop num_probes (probes sdi) (2 ^ 0) ?d0 = (SR_OK, ?d1)"
    and sdi': "sdi' = sdi\<lparr>priv := Some ?d1\<rparr>"
    by (auto simp: configure_probes_unfold [of sdi devc] prod_eq_iff)
  from b have "bit (channel_mask ?d1) (0 + i) \<and> bit (trigger_mask ?d1) (0 + i)
       \<and> (bit (trigger_edge_mask ?d1) (0 + i)
            \<longleftrightarrow> bit (trigger_edge_mask ?d0) (0 + i) \<or> c \<in> {CHR ''r'', CHR ''f''})
       \<and> (bit (trigger_values ?d1) (0 + i)
            \<longleftrightarrow> bit (trigger_values ?d0) (0 + i) \<or> c \<in> {CHR ''1'', CHR ''r''})"
    by (intro configure_probes_loop_bits [OF _ _ run, of i q]) simp_all
  with sdi' show "\<exists>devc'. priv sdi' = Some devc'
            \<and> bit (channel_mask devc') i
            \<and> bit (trigger_mask devc') i
            \<and> (bit (trigger_edge_mask devc') i \<longleftrightarrow> c \<in> {CHR ''r'', CHR ''f''})
            \<and> (bit (trigger_values devc') i \<longleftrightarrow> c \<in> {CHR ''1'', CHR ''r''})"
    by simp
next
  let ?d0 = "devc\<lparr>channel_mask := 0, trigger_mask := 0, trigger_edge_mask := 0, trigger_values := 0\<rparr>"
  let ?run = "configure_probes_loop num_probes (probes sdi) 1 ?d0"
  assume d: "priv sdi = Some devc \<and> i < length (probes sdi) \<and> probes sdi ! i = Some q \<and> \<not> enabled q"
  have first: "configure_probes num_probes sdi = Some (fst ?run, sdi\<lparr>priv := Some (snd ?run)\<rparr>)"
    using d by (simp add: configure_probes_unfold [of sdi devc])
  have other: "configure_probes num_probes (sdi\<lparr>probes := (probes sdi)[i := Some (q\<lparr>trigger := t\<rparr>)]\<rparr>)
                 = Some (fst ?run, sdi\<lparr>probes := (probes sdi)[i := Some (q\<lparr>trigger := t\<rparr>)],
                                      priv := Some (snd ?run)\<rparr>)" for t
  proof -
    from d have "configure_probes_loop num_probes ((probes sdi)[i := Some (q\<lparr>trigger := t\<rparr>)]) 1 ?d0
                   = ?run"
      by (intro configure_probes_loop_disabled_trigger) simp_all
    with d show ?thesis by (simp add: configure_probes_def Let_def split: prod.split)
  qed
  have clear: "\<not> bit (channel_mask (snd ?run)) i \<and> \<not> bit (trigger_mask (snd ?run)) i
                \<and> \<not> bit (trigger_edge_mask (snd ?run)) i \<and> \<not> bit (trigger_values (snd ?run)) i"
    if np: "num_probes < 64"
  proof (rule ccontr)
    assume "\<not> ?thesis"
    then have "bit (channel_mask (snd (configure_probes_loop num_probes (probes sdi) (2 ^ 0) ?d0))) i
         \<or> bit (trigger_mask (snd (configure_probes_loop num_probes (probes sdi) (2 ^ 0) ?d0))) i
         \<or> bit (trigger_edge_mask (snd (configure_probes_loop num_probes (probes sdi) (2 ^ 0) ?d0))) i
         \<or> bit (trigger_values (snd (configure_probes_loop num_probes (probes sdi) (2 ^ 0) ?d0))) i"
      by auto
    from configure_probes_loop_bits_origin [OF np _ this] d show False by simp
  qed
  from first other clear
  show "\<exists>r devc'.
            configure_probes num_probes sdi = Some (r, sdi\<lparr>priv := Some devc'\<rparr>)
          \<and> (\<forall>t. configure_probes num_probes
                     (sdi\<lparr>probes := (probes sdi)[i := Some (q\<lparr>trigger := t\<rparr>)]\<rparr>)
                   = Some (r, sdi\<lparr>probes := (probes sdi)[i := Some (q\<lparr>trigger := t\<rparr>)],
                                  priv := Some devc'\<rparr>))
          \<and> (num_probes < 64
              \<longrightarrow> \<not> bit (channel_mask devc') i \<and> \<not> bit (trigger_mask devc') i
                \<and> \<not> bit (trigger_edge_mask devc') i \<and> \<not> bit (trigger_values devc') i)"
    by blast
next
  assume "priv sdi = Some devc \<and> probes sdi = probes_scenario"
  then show "configure_probes 3 sdi =
           Some (SR_OK, sdi\<lparr>priv := Some (devc\<lparr>channel_mask := 3, trigger_mask := 1,
                                              trigger_edge_mask := 1, trigger_values := 1\<rparr>)\<rparr>)"
    by (simp add: configure_probes_scenario_any)
qed

text \<open>
  An enabled probe with the two-character trigger rf makes the call fail. The scenario
  list, compiled on a Device Context with masks 255, 4, 4 and 4, gives the masks 3, 1,
  1 and 1; its probe at position 0 is enabled with trigger r and bit 0 of all four
  masks is set. A disabled probe with trigger xx gives the same result as the same
  probe with trigger 1, and the value bit stays clear.
\<close>

theorem configure_probes_trigger_symbols_witness:
  "priv sdi_two_stage = Some devc_idle
   \<and> Some \<lparr>enabled = True, trigger = Some ''rf''\<rparr> \<in> set (probes sdi_two_stage)
   \<and> (\<exists>sdi'. configure_probes 3 sdi_two_stage = Some (SR_ERR, sdi'))
   \<and> priv sdi_over_limit = Some devc_stale
   \<and> probes (sdi_over_limit\<lparr>probes := probes_scenario\<rparr>) ! 0 = Some \<lparr>enabled = True, trigger = Some ''r''\<rparr>
   \<and> configure_probes 3 (sdi_over_limit\<lparr>probes := probes_scenario\<rparr>)
       = Some (SR_OK, sdi_over_limit\<lparr>probes := probes_scenario, priv := Some devc_scenario\<rparr>)
   \<and> bit (channel_mask devc_scenario) 0 \<and> bit (trigger_mask devc_scenario) 0
   \<and> bit (trigger_edge_mask devc_scenario) 0 \<and> bit (trigger_values devc_scenario) 0
   \<and> probes sdi_disabled_trigger ! 0 = Some \<lparr>enabled = False, trigger = Some ''xx''\<rparr>
   \<and> (\<exists>r devc'. configure_probes 3 sdi_disabled_trigger
                    = Some (r, sdi_disabled_trigger\<lparr>priv := Some devc'\<rparr>)
         \<and> configure_probes 3 (sdi_disabled_trigger\<lparr>probes := [Some \<lparr>enabled = False, trigger = Some ''1''\<rparr>]\<rparr>)
             = Some (r, sdi_disabled_trigger\<lparr>probes := [Some \<lparr>enabled = False, trigger = Some ''1''\<rparr>],
                                            priv := Some devc'\<rparr>)
         \<and> \<not> bit (trigger_values devc') 0)"
proof -
  let ?stale = "sdi_over_limit\<lparr>probes := probes_scenario\<rparr>"
  let ?xx = "\<lparr>enabled = False, trigger = Some ''xx''\<rparr>"
  have a: "priv sdi_two_stage = Some devc_idle
     \<and> Some \<lparr>enabled = True, trigger = Some ''rf''\<rparr> \<in> set (probes sdi_two_stage)
     \<and> enabled \<lparr>enabled = True, trigger = Some ''rf''\<rparr>
     \<and> trigger \<lparr>enabled = True, trigger = Some ''rf''\<rparr> = Some ''rf''
     \<and> ''rf'' \<noteq> [] \<and> CHR 0x00 \<notin> set ''rf'' \<and> ''rf'' \<notin> {''0'', ''1'', ''r'', ''f''}"
    by (simp add: sdi_two_stage_def sdi_idle_def)
  have s: "priv ?stale = Some devc_stale \<and> probes ?stale = probes_scenario"
    by (simp add: sdi_over_limit_def)
  have sc: "devc_stale\<lparr>channel_mask := 3, trigger_mask := 1,
                       trigger_edge_mask := 1, trigger_values := 1\<rparr> = devc_scenario"
    by (simp add: devc_stale_def devc_scenario_def devc_idle_def)
  from configure_probes_trigger_symbols [where sdi = ?stale and devc = devc_stale] s sc
  have run: "configure_probes 3 ?stale = Some (SR_OK, ?stale\<lparr>priv := Some devc_scenario\<rparr>)"
    by simp
  have b: "(3::nat) < 64 \<and> priv ?stale = Some devc_stale
      \<and> configure_probes 3 ?stale = Some (SR_OK, ?stale\<lparr>priv := Some devc_scenario\<rparr>)
      \<and> 0 < length (probes ?stale)
      \<and> probes ?stale ! 0 = Some \<lparr>enabled = True, trigger = Some ''r''\<rparr>
      \<and> enabled \<lparr>enabled = True, trigger = Some ''r''\<rparr>
      \<and> trigger \<lparr>enabled = True, trigger = Some ''r''\<rparr> = Some [CHR ''r'']
      \<and> CHR ''r'' \<in> {CHR ''0'', CHR ''1'', CHR ''r'', CHR ''f''}"
    using run s by (simp add: probes_scenario_def)
  have d: "priv sdi_disabled_trigger = Some devc_idle \<and> 0 < length (probes sdi_disabled_trigger)
      \<and> probes sdi_disabled_trigger ! 0 = Some ?xx \<and> \<not> enabled ?xx"
    by (simp add: sdi_disabled_trigger_def sdi_idle_def)
  from configure_probes_trigger_symbols
         [where sdi = sdi_two_stage and devc = devc_idle and num_probes = 3
            and p = "\<lparr>enabled = True, trigger = Some ''rf''\<rparr>" and s = "''rf''"] a
  have fails: "\<exists>sdi'. configure_probes 3 sdi_two_stage = Some (SR_ERR, sdi')"
    by blast
  from configure_probes_trigger_symbols
         [where sdi = ?stale and devc = devc_stale and num_probes = 3
            and sdi' = "?stale\<lparr>priv := Some devc_scenario\<rparr>" and i = 0
            and q = "\<lparr>enabled = True, trigger = Some ''r''\<rparr>" and c = "CHR ''r''"] b
  have "\<exists>devc'. priv (?stale\<lparr>priv := Some devc_scenario\<rparr>) = Some devc'
            \<and> bit (channel_mask devc') 0
            \<and> bit (trigger_mask devc') 0
            \<and> (bit (trigger_edge_mask devc') 0 \<longleftrightarrow> CHR ''r'' \<in> {CHR ''r'', CHR ''f''})
            \<and> (bit (trigger_values devc') 0 \<longleftrightarrow> CHR ''r'' \<in> {CHR ''1'', CHR ''r''})"
    by blast
  then have bits: "bit (channel_mask devc_scenario) 0 \<and> bit (trigger_mask devc_scenario) 0
     \<and> bit (trigger_edge_mask devc_scenario) 0 \<and> bit (trigger_values devc_scenario) 0"
    by simp
  from configure_probes_trigger_symbols
         [where sdi = sdi_disabled_trigger and devc = devc_idle and num_probes = 3
            and i = 0 and q = ?xx] d
  have "\<exists>r devc'.
            configure_probes 3 sdi_disabled_trigger = Some (r, sdi_disabled_trigger\<lparr>priv := Some devc'\<rparr>)
          \<and> (\<forall>t. configure_probes 3
                     (sdi_disabled_trigger\<lparr>probes := (probes sdi_disabled_trigger)[0 := Some (?xx\<lparr>trigger := t\<rparr>)]\<rparr>)
                   = Some (r, sdi_disabled_trigger\<lparr>probes := (probes sdi_disabled_trigger)[0 := Some (?xx\<lparr>trigger := t\<rparr>)],
                                  priv := Some devc'\<rparr>))
          \<and> ((3::nat) < 64
              \<longrightarrow> \<not> bit (channel_mask devc') 0 \<and> \<not> bit (trigger_mask devc') 0
                \<and> \<not> bit (trigger_edge_mask devc') 0 \<and> \<not> bit (trigger_values devc') 0)"
    by blast
  then obtain r devc' where
    r1: "configure_probes 3 sdi_disabled_trigger = Some (r, sdi_disabled_trigger\<lparr>priv := Some devc'\<rparr>)"
    and r2: "\<And>t. configure_probes 3
                     (sdi_disabled_trigger\<lparr>probes := (probes sdi_disabled_trigger)[0 := Some (?xx\<lparr>trigger := t\<rparr>)]\<rparr>)
                   = Some (r, sdi_disabled_trigger\<lparr>probes := (probes sdi_disabled_trigger)[0 := Some (?xx\<lparr>trigger := t\<rparr>)],
                                  priv := Some devc'\<rparr>)"
    and r3': "(3::nat) < 64
              \<longrightarrow> \<not> bit (channel_mask devc') 0 \<and> \<not> bit (trigger_mask devc') 0
                \<and> \<not> bit (trigger_edge_mask devc') 0 \<and> \<not> bit (trigger_values devc') 0"
    by blast
  from r3' have r3: "\<not> bit (trigger_values devc') 0" by simp
  from r2 [of "Some ''1''"]
  have r2': "configure_probes 3 (sdi_disabled_trigger\<lparr>probes := [Some \<lparr>enabled = False, trigger = Some ''1''\<rparr>]\<rparr>)
             = Some (r, sdi_disabled_trigger\<lparr>probes := [Some \<lparr>enabled = False, trigger = Some ''1''\<rparr>],
                                            priv := Some devc'\<rparr>)"
    by (simp add: sdi_disabled_trigger_def)
  from r1 r2' r3 have ex: "\<exists>r devc'. configure_probes 3 sdi_disabled_trigger
                    = Some (r, sdi_disabled_trigger\<lparr>priv := Some devc'\<rparr>)
         \<and> configure_probes 3 (sdi_disabled_trigger\<lparr>probes := [Some \<lparr>enabled = False, trigger = Some ''1''\<rparr>]\<rparr>)
             = Some (r, sdi_disabled_trigger\<lparr>probes := [Some \<lparr>enabled = False, trigger = Some ''1''\<rparr>],
                                            priv := Some devc'\<rparr>)
         \<and> \<not> bit (trigger_values devc') 0"
    by blast
  have c4: "priv sdi_over_limit = Some devc_stale" by (simp add: sdi_over_limit_def)
  from a have c1: "priv sdi_two_stage = Some devc_idle"
    and c2: "Some \<lparr>enabled = True, trigger = Some ''rf''\<rparr> \<in> set (probes sdi_two_stage)"
    by simp_all
  from b have c5: "probes ?stale ! 0 = Some \<lparr>enabled = True, trigger = Some ''r''\<rparr>" by simp
  from d have c11: "probes sdi_disabled_trigger ! 0 = Some ?xx" by simp
  show ?thesis
    by (intro conjI) (rule c1 c2 fails c4 c5 run ex c11 bits [THEN conjunct1]
        bits [THEN conjunct2, THEN conjunct1] bits [THEN conjunct2, THEN conjunct2, THEN conjunct1]
        bits [THEN conjunct2, THEN conjunct2, THEN conjunct2])+
qed

text \<open>
  Without the restriction to enabled probes the statement fails: a disabled probe with
  the two-character trigger xx has a non-empty trigger string that is not a single
  symbol, and the call returns \<open>SR_OK\<close> with all masks 0.
\<close>

theorem configure_probes_disabled_trigger_counterexample:
  "probes sdi_disabled_trigger = [Some \<lparr>enabled = False, trigger = Some ''xx''\<rparr>]
   \<and> configure_probes 3 sdi_disabled_trigger =
       Some (SR_OK, sdi_disabled_trigger\<lparr>priv := Some devc_idle\<rparr>)"
  by (simp add: configure_probes_def sdi_disabled_trigger_def sdi_idle_def devc_idle_def
      configure_probe_def Let_def word_le_nat_alt)

section \<open>Acquisition stop\<close>

text \<open>
  C8: on a device whose status is ACTIVE, \<^verbatim>\<open>dev_acquisition_stop\<close> returns \<open>SR_OK\<close>
  and sets the status to STOPPING; the Device Context (session, masks, flags), the
  connection and the probe list are the ones it was given, and no collaborator is
  called, so the session is not released. On any other status it returns
  \<open>SR_ERR_DEV_CLOSED\<close> and the device instance is unchanged.
\<close>

theorem dev_acquisition_stop_frame:
  "(status sdi = SR_ST_ACTIVE \<longrightarrow>
      dev_acquisition_stop sdi = (SR_OK, sdi\<lparr>status := SR_ST_STOPPING\<rparr>, [])
      \<and> priv (fst (snd (dev_acquisition_stop sdi))) = priv sdi
      \<and> conn (fst (snd (dev_acquisition_stop sdi))) = conn sdi
      \<and> probes (fst (snd (dev_acquisition_stop sdi))) = probes sdi)
   \<and> (status sdi \<noteq> SR_ST_ACTIVE \<longrightarrow>
      dev_acquisition_stop sdi = (SR_ERR_DEV_CLOSED, sdi, []))"
  by (simp add: dev_acquisition_stop_def)

theorem dev_acquisition_stop_frame_witness:
  "dev_acquisition_stop sdi_running = (SR_OK, sdi_running\<lparr>status := SR_ST_STOPPING\<rparr>, [])
   \<and> priv (fst (snd (dev_acquisition_stop sdi_running)))
        = Some (devc_idle\<lparr>acquisition := Some 5\<rparr>)
   \<and> dev_acquisition_stop (sdi_running\<lparr>status := SR_ST_STOPPING\<rparr>)
        = (SR_ERR_DEV_CLOSED, sdi_running\<lparr>status := SR_ST_STOPPING\<rparr>, [])"
  using dev_acquisition_stop_frame [of sdi_running]
    dev_acquisition_stop_frame [of "sdi_running\<lparr>status := SR_ST_STOPPING\<rparr>"]
  by (simp add: sdi_running_def sdi_idle_def)

section \<open>Acquisition start: the guards\<close>

text \<open>
  C6: on a device whose status is not ACTIVE, \<^verbatim>\<open>dev_acquisition_start\<close> returns
  \<open>SR_ERR_DEV_CLOSED\<close>; the device instance (status and Device Context) is unchanged
  and no collaborator is called, so no session is allocated.
\<close>

theorem dev_acquisition_start_not_active:
  assumes "status sdi \<noteq> SR_ST_ACTIVE"
  shows "dev_acquisition_start num_probes eng di_priv sdi = Some (SR_ERR_DEV_CLOSED, sdi, [])"
  using assms by (simp add: dev_acquisition_start_def)

theorem dev_acquisition_start_not_active_witness:
  "status (sdi_idle\<lparr>status := SR_ST_INACTIVE\<rparr>) \<noteq> SR_ST_ACTIVE
   \<and> dev_acquisition_start 34 (engine_of SR_OK SR_OK) (Some drvc_example)
        (sdi_idle\<lparr>status := SR_ST_INACTIVE\<rparr>)
        = Some (SR_ERR_DEV_CLOSED, sdi_idle\<lparr>status := SR_ST_INACTIVE\<rparr>, [])"
  using dev_acquisition_start_not_active
          [of "sdi_idle\<lparr>status := SR_ST_INACTIVE\<rparr>" 34 "engine_of SR_OK SR_OK" "Some drvc_example"]
  by simp

text \<open>
  C5: on a device whose Device Context holds a session, \<^verbatim>\<open>dev_acquisition_start\<close>
  fails: with \<open>SR_ERR\<close> when the status is ACTIVE, with \<open>SR_ERR_DEV_CLOSED\<close> otherwise.
  No collaborator is called, so no session is allocated, and the device instance is
  returned as it was, the session still attached.
\<close>

theorem dev_acquisition_start_in_progress:
  assumes "priv sdi = Some devc" and "acquisition devc = Some acq"
  shows "dev_acquisition_start num_probes eng di_priv sdi =
           Some (if status sdi = SR_ST_ACTIVE then SR_ERR else SR_ERR_DEV_CLOSED, sdi, [])"
  using assms by (simp add: dev_acquisition_start_def)

theorem dev_acquisition_start_in_progress_witness:
  "priv sdi_running = Some (devc_idle\<lparr>acquisition := Some 5\<rparr>)
   \<and> acquisition (devc_idle\<lparr>acquisition := Some 5\<rparr>) = Some 5
   \<and> dev_acquisition_start 34 (engine_of SR_OK SR_OK) (Some drvc_example) sdi_running
        = Some (SR_ERR, sdi_running, [])"
  using dev_acquisition_start_in_progress
          [of sdi_running "devc_idle\<lparr>acquisition := Some 5\<rparr>" 5 34 "engine_of SR_OK SR_OK"
              "Some drvc_example"]
  by (simp add: sdi_running_def sdi_idle_def)

section \<open>Acquisition start: failure of a delegated step\<close>

text \<open>
  C7: on an ACTIVE device without a session, when the allocator returns a session and
  \<^verbatim>\<open>configure_probes\<close> returns \<open>SR_OK\<close>, and the setup step returns a code \<open>r_setup\<close>
  other than \<open>SR_OK\<close>, or the setup step returns \<open>SR_OK\<close> and the start step a code
  \<open>r_start\<close> other than \<open>SR_OK\<close>: \<^verbatim>\<open>dev_acquisition_start\<close> returns that code, the
  session pointer of the Device Context is \<^verbatim>\<open>NULL\<close> afterwards, the last call made is
  the release of the session that was allocated, no I/O source is registered, and the
  status is still ACTIVE.
\<close>

theorem dev_acquisition_start_delegate_fails:
  assumes "status sdi = SR_ST_ACTIVE" and "priv sdi = Some devc" and "acquisition devc = None"
    and "lwla_alloc_acquisition_state eng = Some acq"
    and "configure_probes num_probes
           (sdi\<lparr>priv := Some (devc\<lparr>stopping_in_progress := False, transfer_error := False\<rparr>)\<rparr>)
         = Some (SR_OK, sdi1)"
    and "priv sdi1 = Some devc1"
    and "lwla_setup_acquisition eng (sdi1\<lparr>priv := Some (devc1\<lparr>acquisition := Some acq\<rparr>)\<rparr>)
         = (r_setup, devc3)"
    and "lwla_start_acquisition eng (sdi1\<lparr>priv := Some devc3\<rparr>) = (r_start, devc4)"
    and "r_setup \<noteq> SR_OK \<or> r_start \<noteq> SR_OK"
  shows "\<exists>sdi' devc'.
           dev_acquisition_start num_probes eng di_priv sdi =
             Some (if r_setup \<noteq> SR_OK then r_setup else r_start, sdi',
                   [Call_alloc_acquisition_state, Call_setup_acquisition]
                   @ (if r_setup \<noteq> SR_OK then [] else [Call_start_acquisition])
                   @ [Call_free_acquisition_state acq])
         \<and> status sdi' = SR_ST_ACTIVE
         \<and> priv sdi' = Some devc'
         \<and> acquisition devc' = None"
proof -
  from assms(5) assms(2) have st: "status sdi1 = status sdi"
    by (auto simp: configure_probes_def Let_def split: prod.splits)
  show ?thesis
  proof (cases "r_setup = SR_OK")
    case True
    with assms st show ?thesis
      by (simp add: dev_acquisition_start_def Let_def)
  next
    case False
    with assms st show ?thesis
      by (simp add: dev_acquisition_start_def Let_def)
  qed
qed

text \<open>
  On the scenario device: a setup step that times out, and a start step that fails
  after a successful setup.
\<close>

theorem dev_acquisition_start_delegate_fails_witness:
  "dev_acquisition_start 3 (engine_of SR_ERR_TIMEOUT SR_OK) (Some drvc_example) sdi_idle
     = Some (SR_ERR_TIMEOUT, sdi_idle\<lparr>priv := Some devc_scenario\<rparr>,
             [Call_alloc_acquisition_state, Call_setup_acquisition, Call_free_acquisition_state 7])
   \<and> dev_acquisition_start 3 (engine_of SR_OK SR_ERR) (Some drvc_example) sdi_idle
     = Some (SR_ERR, sdi_idle\<lparr>priv := Some devc_scenario\<rparr>,
             [Call_alloc_acquisition_state, Call_setup_acquisition, Call_start_acquisition,
              Call_free_acquisition_state 7])
   \<and> status sdi_idle = SR_ST_ACTIVE \<and> acquisition devc_scenario = None"
proof -
  have run: "configure_probes 3
           (sdi_idle\<lparr>priv := Some (devc_idle\<lparr>stopping_in_progress := False, transfer_error := False\<rparr>)\<rparr>)
         = Some (SR_OK, sdi_idle\<lparr>priv := Some devc_scenario\<rparr>)"
    by (simp add: configure_probes_def sdi_idle_def devc_idle_def devc_scenario_def
        probes_scenario_def configure_probe_def cstr_at_def Let_def word_le_nat_alt)
  have h: "status sdi_idle = SR_ST_ACTIVE" "priv sdi_idle = Some devc_idle"
    "acquisition devc_idle = None"
    by (simp_all add: sdi_idle_def devc_idle_def)
  have al: "lwla_alloc_acquisition_state (engine_of r1 r2) = Some 7" for r1 r2
    by (simp add: engine_of_def)
  have p1: "priv (sdi_idle\<lparr>priv := Some devc_scenario\<rparr>) = Some devc_scenario" by simp
  have s1: "lwla_setup_acquisition (engine_of r1 r2)
              (sdi_idle\<lparr>priv := Some devc_scenario\<rparr>\<lparr>priv := Some (devc_scenario\<lparr>acquisition := Some 7\<rparr>)\<rparr>)
            = (r1, devc_scenario\<lparr>acquisition := Some 7\<rparr>)" for r1 r2
    by (simp add: engine_of_def keep_context_def)
  have s2: "lwla_start_acquisition (engine_of r1 r2)
              (sdi_idle\<lparr>priv := Some devc_scenario\<rparr>\<lparr>priv := Some (devc_scenario\<lparr>acquisition := Some 7\<rparr>)\<rparr>)
            = (r2, devc_scenario\<lparr>acquisition := Some 7\<rparr>)" for r1 r2
    by (simp add: engine_of_def keep_context_def)
  have f1: "SR_ERR_TIMEOUT \<noteq> SR_OK \<or> SR_OK \<noteq> SR_OK" by simp
  have f2: "SR_OK \<noteq> SR_OK \<or> SR_ERR \<noteq> SR_OK" by simp
  have same: "devc_scenario\<lparr>acquisition := None\<rparr> = devc_scenario"
    by (simp add: devc_scenario_def devc_idle_def)
  have ev1: "dev_acquisition_start 3 (engine_of SR_ERR_TIMEOUT SR_OK) (Some drvc_example) sdi_idle
     = Some (SR_ERR_TIMEOUT, sdi_idle\<lparr>priv := Some devc_scenario\<rparr>,
             [Call_alloc_acquisition_state, Call_setup_acquisition, Call_free_acquisition_state 7])"
    by (simp add: dev_acquisition_start_def run h al same engine_of_def keep_context_def Let_def)
  have ev2: "dev_acquisition_start 3 (engine_of SR_OK SR_ERR) (Some drvc_example) sdi_idle
     = Some (SR_ERR, sdi_idle\<lparr>priv := Some devc_scenario\<rparr>,
             [Call_alloc_acquisition_state, Call_setup_acquisition, Call_start_acquisition,
              Call_free_acquisition_state 7])"
    by (simp add: dev_acquisition_start_def run h al same engine_of_def keep_context_def Let_def)
  from dev_acquisition_start_delegate_fails [OF h al run p1 s1 s2 f1, of "Some drvc_example"]
       dev_acquisition_start_delegate_fails [OF h al run p1 s1 s2 f2, of "Some drvc_example"]
       ev1 ev2 h
  show ?thesis
    by (simp add: devc_scenario_def devc_idle_def)
qed

section \<open>Device close\<close>

text \<open>
  Every device of the driver is created by \<^verbatim>\<open>scan\<close>, which dereferences the driver
  context and attaches a Device Context, with status INACTIVE and no handle;
  \<^verbatim>\<open>dev_open\<close> obtains the handle before it leaves INACTIVE, and \<^verbatim>\<open>dev_close\<close> clears
  the handle and sets INACTIVE together. So on every device the driver is initialised,
  the Device Context exists, and a device that is not INACTIVE has an open handle. The
  callbacks modelled here keep the last property.
\<close>

lemma dev_close_keeps_handle:
  assumes "dev_close eng di_priv sdi = Some (r, sdi', calls)"
    and "status sdi = SR_ST_INACTIVE \<or> devhdl (conn sdi) \<noteq> None"
  shows "status sdi' = SR_ST_INACTIVE \<or> devhdl (conn sdi') \<noteq> None"
  using assms
  by (auto simp: dev_close_def Let_def split: option.splits prod.splits)

lemma dev_acquisition_stop_keeps_handle:
  assumes "dev_acquisition_stop sdi = (r, sdi', calls)"
    and "status sdi = SR_ST_INACTIVE \<or> devhdl (conn sdi) \<noteq> None"
  shows "status sdi' = SR_ST_INACTIVE \<or> devhdl (conn sdi') \<noteq> None"
  using assms
  by (auto simp: dev_acquisition_stop_def split: if_splits)

lemma config_set_keeps_handle:
  assumes "config_set eng key data sdi = (r, sdi', calls)"
  shows "status sdi' = status sdi \<and> conn sdi' = conn sdi"
  using assms
  by (auto simp: config_set_def Let_def split: option.splits sr_configkey.splits prod.splits if_splits)

lemma configure_probes_keeps_handle:
  assumes "configure_probes np sdi = Some (r, sdi')"
  shows "status sdi' = status sdi \<and> conn sdi' = conn sdi"
  using assms
  by (auto simp: configure_probes_def Let_def split: option.splits prod.splits)

lemma dev_acquisition_start_keeps_handle:
  assumes "dev_acquisition_start np eng di_priv sdi = Some (r, sdi', calls)"
  shows "status sdi' = status sdi \<and> conn sdi' = conn sdi"
proof (cases "configure_probes np
    (sdi\<lparr>priv := Some (the (priv sdi)\<lparr>stopping_in_progress := False, transfer_error := False\<rparr>)\<rparr>)")
  case None
  with assms show ?thesis
    by (auto simp: dev_acquisition_start_def Let_def split: option.splits if_splits)
next
  case (Some res)
  obtain rc sdi1 where res: "res = (rc, sdi1)" by (cases res)
  from configure_probes_keeps_handle [OF Some [unfolded res]]
  have "status sdi1 = status sdi \<and> conn sdi1 = conn sdi" by simp
  with assms Some res show ?thesis
    by (auto simp: dev_acquisition_start_def Let_def split: option.splits if_splits prod.splits)
qed



end
